theory Spec2Isabelle
  imports Main
begin

section \<open>JavaScript values\<close>

text \<open>
  The route handlers receive a parsed JSON body and test its fields with \<open>!x\<close>, so the
  values of the language are modelled as they are, with \<open>undefined\<close> for a property an
  object does not have. Numbers stand as integers: the handlers only test them for zero.
  An object is the list of its own properties, each key once.
\<close>

datatype jsval =
    JUndefined
  | JNull
  | JBool bool
  | JNum int
  | JStr string
  | JArr "jsval list"
  | JObj "(string \<times> jsval) list"

text \<open>\<open>!x\<close> is \<open>\<not> truthy x\<close>.\<close>

fun truthy :: "jsval \<Rightarrow> bool" where
  "truthy JUndefined = False"
| "truthy JNull = False"
| "truthy (JBool b) = b"
| "truthy (JNum n) = (n \<noteq> 0)"
| "truthy (JStr s) = (s \<noteq> [])"
| "truthy (JArr xs) = True"
| "truthy (JObj fs) = True"

text \<open>
  Reading one of the properties \<open>title\<close>, \<open>keyword\<close>, \<open>url\<close>, \<open>contents\<close>: only an
  object can have it as an own property, and no prototype of the other values defines it.
\<close>

fun get_prop :: "jsval \<Rightarrow> string \<Rightarrow> jsval" where
  "get_prop (JObj fs) k = (case map_of fs k of None \<Rightarrow> JUndefined | Some v \<Rightarrow> v)"
| "get_prop v k = JUndefined"

text \<open>
  \<open>const { title, keyword, url } = body\<close> throws a TypeError when \<open>body\<close> is \<open>null\<close>
  or \<open>undefined\<close>; every other value is destructured, missing properties being
  \<open>undefined\<close>. A thrown error is its message.
\<close>

definition destructure_error :: string where
  "destructure_error = ''Cannot destructure property of body as it is null.''"

fun destructure :: "jsval \<Rightarrow> string + (jsval \<times> jsval \<times> jsval)" where
  "destructure JUndefined = Inl destructure_error"
| "destructure JNull = Inl destructure_error"
| "destructure body =
     Inr (get_prop body ''title'', get_prop body ''keyword'', get_prop body ''url'')"

text \<open>\<open>!s\<close> for a value of type \<open>string | null | undefined\<close>.\<close>

fun present :: "string option \<Rightarrow> bool" where
  "present None = False"
| "present (Some s) = (s \<noteq> [])"

section \<open>The Link table and the store\<close>

record Link =
  link_id :: string
  link_userId :: string
  link_url :: string
  link_keyword :: string
  link_title :: string

datatype store_call =
    FindUniqueId string
  | FindUniqueKeyword jsval string
  | LinkUpdate string jsval jsval jsval
  | LinkDelete string

fun is_mutation :: "store_call \<Rightarrow> bool" where
  "is_mutation (FindUniqueId i) = False"
| "is_mutation (FindUniqueKeyword k i) = False"
| "is_mutation (LinkUpdate i t k u) = True"
| "is_mutation (LinkDelete i) = True"

text \<open>
  Any call to the store may raise a fault. The faults of a run are a parameter of the
  handlers: the message raised by a call, if it raises one. A call that raises leaves the
  table as it was.
\<close>

type_synonym faults = "store_call \<Rightarrow> string option"

definition no_faults :: faults where
  "no_faults = (\<lambda>c. None)"

definition validation_error :: string where
  "validation_error = ''Invalid invocation: argument is not a String.''"

definition missing_record_error :: string where
  "missing_record_error = ''Record required by the operation was not found.''"

text \<open>
  Modelled from the spec: the object-relational mapper and the schema of the \<open>Link\<close> table
  are not part of the sources. The store offers \<open>findUnique\<close> by id, \<open>findUnique\<close> by
  keyword excluding an id, \<open>update\<close> by id and \<open>delete\<close> by id; the columns are strings,
  so a value that is not a string is refused with a fault.
\<close>

definition findUnique_id :: "faults \<Rightarrow> Link list \<Rightarrow> string \<Rightarrow> string + Link option" where
  "findUnique_id fl rows i =
     (case fl (FindUniqueId i) of
        Some m \<Rightarrow> Inl m
      | None \<Rightarrow> Inr (find (\<lambda>l. link_id l = i) rows))"

definition findUnique_keyword :: "faults \<Rightarrow> Link list \<Rightarrow> jsval \<Rightarrow> string \<Rightarrow> string + Link option" where
  "findUnique_keyword fl rows kw i =
     (case fl (FindUniqueKeyword kw i) of
        Some m \<Rightarrow> Inl m
      | None \<Rightarrow>
          (case kw of
             JStr k \<Rightarrow> Inr (find (\<lambda>l. link_keyword l = k \<and> link_id l \<noteq> i) rows)
           | _ \<Rightarrow> Inl validation_error))"

definition set_fields :: "string \<Rightarrow> string \<Rightarrow> string \<Rightarrow> Link \<Rightarrow> Link" where
  "set_fields t k u l = l\<lparr>link_title := t, link_keyword := k, link_url := u\<rparr>"

definition link_update ::
  "faults \<Rightarrow> Link list \<Rightarrow> string \<Rightarrow> jsval \<Rightarrow> jsval \<Rightarrow> jsval \<Rightarrow> string + (Link \<times> Link list)" where
  "link_update fl rows i title keyword url =
     (case fl (LinkUpdate i title keyword url) of
        Some m \<Rightarrow> Inl m
      | None \<Rightarrow>
          (case (title, keyword, url) of
             (JStr t, JStr k, JStr u) \<Rightarrow>
               (case find (\<lambda>l. link_id l = i) rows of
                  None \<Rightarrow> Inl missing_record_error
                | Some l \<Rightarrow>
                    Inr (set_fields t k u l,
                         map (\<lambda>r. if link_id r = i then set_fields t k u r else r) rows))
           | _ \<Rightarrow> Inl validation_error))"

definition link_delete :: "faults \<Rightarrow> Link list \<Rightarrow> string \<Rightarrow> string + (Link \<times> Link list)" where
  "link_delete fl rows i =
     (case fl (LinkDelete i) of
        Some m \<Rightarrow> Inl m
      | None \<Rightarrow>
          (case find (\<lambda>l. link_id l = i) rows of
             None \<Rightarrow> Inl missing_record_error
           | Some l \<Rightarrow> Inr (l, filter (\<lambda>r. link_id r \<noteq> i) rows)))"

section \<open>Requests and responses\<close>

text \<open>
  What a handler reads of a request: the identity \<open>auth()\<close> resolves (\<open>None\<close> for no
  identity), the outcome of \<open>req.json()\<close> (\<open>Inl\<close> the message of the error it rejects
  with when the body is absent or malformed), and the path parameter.
\<close>

record request =
  auth_userId :: "string option"
  json_body :: "string + jsval"
  params_linkId :: "string option"

record response =
  status :: nat
  json :: jsval

definition NextResponse_json :: "jsval \<Rightarrow> nat \<Rightarrow> response" where
  "NextResponse_json body st = \<lparr>status = st, json = body\<rparr>"

definition failure :: "string \<Rightarrow> jsval" where
  "failure msg = JObj [(''success'', JBool False), (''error'', JStr msg)]"

definition json_of_Link :: "Link \<Rightarrow> jsval" where
  "json_of_Link l =
     JObj [(''id'', JStr (link_id l)), (''userId'', JStr (link_userId l)),
           (''url'', JStr (link_url l)), (''keyword'', JStr (link_keyword l)),
           (''title'', JStr (link_title l))]"

definition success :: "Link \<Rightarrow> jsval" where
  "success l = JObj [(''success'', JBool True), (''link'', json_of_Link l)]"

text \<open>
  The outcome of a handler: the response, the table afterwards, and the calls it made to
  the store, in order.
\<close>

record outcome =
  reply :: response
  db :: "Link list"
  calls :: "store_call list"

definition respond :: "jsval \<Rightarrow> nat \<Rightarrow> Link list \<Rightarrow> store_call list \<Rightarrow> outcome" where
  "respond body st rows cs = \<lparr>reply = NextResponse_json body st, db = rows, calls = cs\<rparr>"

text \<open>The \<open>catch\<close> block of both handlers.\<close>

definition caught :: "string \<Rightarrow> Link list \<Rightarrow> store_call list \<Rightarrow> outcome" where
  "caught m rows cs = respond (failure m) 500 rows cs"

section \<open>The route handlers\<close>

text \<open>
  The first statements of \<open>PATCH\<close> after \<open>auth()\<close>: \<open>await req.json()\<close> and
  the destructuring of the body. Either may throw, before any check is made.
\<close>

definition body_fields :: "request \<Rightarrow> string + (jsval \<times> jsval \<times> jsval)" where
  "body_fields req =
     (case json_body req of
        Inl m \<Rightarrow> Inl m
      | Inr body \<Rightarrow> destructure body)"

text \<open>The body of an update request carries a truthy \<open>url\<close>, \<open>keyword\<close> and \<open>title\<close>.\<close>

definition fields_present :: "request \<Rightarrow> bool" where
  "fields_present req =
     (case body_fields req of
        Inl m \<Rightarrow> False
      | Inr (title, keyword, url) \<Rightarrow> truthy url \<and> truthy keyword \<and> truthy title)"

definition PATCH :: "faults \<Rightarrow> request \<Rightarrow> Link list \<Rightarrow> outcome" where
  "PATCH fl req rows =
     (case body_fields req of
        Inl m \<Rightarrow> caught m rows []
      | Inr (title, keyword, url) \<Rightarrow>
     (if \<not> present (auth_userId req) then
        respond (failure ''Unauthenticated.'') 401 rows []
      else if \<not> truthy url then
        respond (failure ''URL is required.'') 400 rows []
      else if \<not> truthy keyword then
        respond (failure ''Keyword is required.'') 400 rows []
      else if \<not> truthy title then
        respond (failure ''Title is required.'') 400 rows []
      else
     (case params_linkId req of
        None \<Rightarrow> respond (failure ''Link ID is required.'') 400 rows []
      | Some linkId \<Rightarrow>
     (if linkId = [] then
        respond (failure ''Link ID is required.'') 400 rows []
      else
     (case findUnique_id fl rows linkId of
        Inl m \<Rightarrow> caught m rows [FindUniqueId linkId]
      | Inr None \<Rightarrow>
          respond (failure ''Link not found.'') 404 rows [FindUniqueId linkId]
      | Inr (Some linkFound) \<Rightarrow>
     (if Some (link_userId linkFound) \<noteq> auth_userId req then
        respond (failure ''Unauthorized: You do not own this link.'') 403 rows
          [FindUniqueId linkId]
      else
     (case findUnique_keyword fl rows keyword (link_id linkFound) of
        Inl m \<Rightarrow>
          caught m rows [FindUniqueId linkId, FindUniqueKeyword keyword (link_id linkFound)]
      | Inr (Some currentLink) \<Rightarrow>
          respond (failure ''Please enter different keyword.'') 400 rows
            [FindUniqueId linkId, FindUniqueKeyword keyword (link_id linkFound)]
      | Inr None \<Rightarrow>
     (case link_update fl rows linkId title keyword url of
        Inl m \<Rightarrow>
          caught m rows
            [FindUniqueId linkId, FindUniqueKeyword keyword (link_id linkFound),
             LinkUpdate linkId title keyword url]
      | Inr (link, rows') \<Rightarrow>
          respond (success link) 200 rows'
            [FindUniqueId linkId, FindUniqueKeyword keyword (link_id linkFound),
             LinkUpdate linkId title keyword url]))))))))"

definition DELETE :: "faults \<Rightarrow> request \<Rightarrow> Link list \<Rightarrow> outcome" where
  "DELETE fl req rows =
     (if \<not> present (auth_userId req) then
        respond (failure ''Unauthenticated.'') 401 rows []
      else
     (case params_linkId req of
        None \<Rightarrow> respond (failure ''Link ID is required.'') 400 rows []
      | Some linkId \<Rightarrow>
     (if linkId = [] then
        respond (failure ''Link ID is required.'') 400 rows []
      else
     (case findUnique_id fl rows linkId of
        Inl m \<Rightarrow> caught m rows [FindUniqueId linkId]
      | Inr None \<Rightarrow>
          respond (failure ''Link not found.'') 404 rows [FindUniqueId linkId]
      | Inr (Some linkFound) \<Rightarrow>
     (if Some (link_userId linkFound) \<noteq> auth_userId req then
        respond (failure ''Unauthorized: You do not own this link.'') 403 rows
          [FindUniqueId linkId]
      else
     (case link_delete fl rows linkId of
        Inl m \<Rightarrow> caught m rows [FindUniqueId linkId, LinkDelete linkId]
      | Inr (link, rows') \<Rightarrow>
          respond (success link) 200 rows' [FindUniqueId linkId, LinkDelete linkId]))))))"

section \<open>The creation dialog\<close>

subsection \<open>The form schema\<close>

text \<open>
  The strings of the dialog are sequences of the code units below 256. On these
  \<open>String.prototype.toLowerCase\<close> maps \<open>A\<close> to \<open>Z\<close> and the capital letters of the
  Latin-1 supplement (192 to 222, the multiplication sign 215 apart) 32 places up and
  leaves every other unit as it is.
\<close>

definition toLowerCase_char :: "char \<Rightarrow> char" where
  "toLowerCase_char c =
     (let n = (of_char c :: nat) in
      if (65 \<le> n \<and> n \<le> 90) \<or> (192 \<le> n \<and> n \<le> 222 \<and> n \<noteq> 215)
      then char_of (n + 32) else c)"

definition toLowerCase :: "string \<Rightarrow> string" where
  "toLowerCase s = map toLowerCase_char s"

text \<open>The character class \<open>[a-z0-9_-]\<close>: two ranges and two literals.\<close>

definition in_range :: "char \<Rightarrow> char \<Rightarrow> char \<Rightarrow> bool" where
  "in_range lo hi c = ((of_char lo :: nat) \<le> of_char c \<and> (of_char c :: nat) \<le> of_char hi)"

definition slug_class :: "char \<Rightarrow> bool" where
  "slug_class c =
     (in_range CHR ''a'' CHR ''z'' c \<or> in_range CHR ''0'' CHR ''9'' c
      \<or> c = CHR ''_'' \<or> c = CHR ''-'')"

text \<open>
  \<open>/^[a-z0-9_-]+$/.test(s)\<close>: without the \<open>m\<close> flag the anchors are the two ends of
  the input, so the whole input is one or more characters of the class.
\<close>

fun regex_slug_test :: "string \<Rightarrow> bool" where
  "regex_slug_test [] = False"
| "regex_slug_test [c] = slug_class c"
| "regex_slug_test (c # cs) = (slug_class c \<and> regex_slug_test cs)"

datatype field = Url | Keyword

record form_values =
  values_url :: string
  values_keyword :: string

text \<open>
  The checks of a string schema run in the order they were chained, \<open>toLowerCase\<close>
  replacing the data the later checks see, and every failed check adds an issue. The
  validator's \<open>url\<close> check asks whether \<open>new URL(data)\<close> throws; the URL parser is a
  parameter \<open>is_url\<close> of the schema.
\<close>

definition url_issues :: "(string \<Rightarrow> bool) \<Rightarrow> string \<Rightarrow> (field \<times> string) list" where
  "url_issues is_url data =
     (if is_url data then [] else [(Url, ''Please enter a valid URL.'')])"

definition keyword_issues :: "string \<Rightarrow> (field \<times> string) list" where
  "keyword_issues data =
     (if length data < 2 then [(Keyword, ''Please enter 2 or more characters.'')] else []) @
     (if regex_slug_test data then []
      else [(Keyword,
        ''Only letters, numbers, hyphens (-) and underscores (_) are allowed.'')])"

definition formSchema ::
  "(string \<Rightarrow> bool) \<Rightarrow> form_values \<Rightarrow> (field \<times> string) list + form_values" where
  "formSchema is_url raw =
     (let url = toLowerCase (values_url raw);
          keyword = toLowerCase (values_keyword raw);
          issues = url_issues is_url url @ keyword_issues keyword
      in if issues = [] then Inr \<lparr>values_url = url, values_keyword = keyword\<rparr>
         else Inl issues)"

subsection \<open>Looking the title up\<close>

text \<open>
  \<open>contents.match(/<title>(.*?)<\/title>/)\<close>: the leftmost opening tag after which
  the closing tag follows with no line terminator between; the group is the shortest
  such stretch. \<open>capture_title\<close> is the group read from just behind an opening tag,
  \<open>match_title\<close> is \<open>matches?.[1]\<close>, \<open>None\<close> when nothing matches.
\<close>

definition line_terminator :: "char \<Rightarrow> bool" where
  "line_terminator c = (c = CHR 0x0A \<or> c = CHR 0x0D)"

fun capture_title :: "string \<Rightarrow> string option" where
  "capture_title [] = None"
| "capture_title (c # cs) =
     (if take 8 (c # cs) = ''</title>'' then Some []
      else if line_terminator c then None
      else map_option ((#) c) (capture_title cs))"

fun match_title :: "string \<Rightarrow> string option" where
  "match_title [] = None"
| "match_title (c # cs) =
     (if take 7 (c # cs) = ''<title>'' then
        (case capture_title (drop 7 (c # cs)) of
           Some t \<Rightarrow> Some t
         | None \<Rightarrow> match_title cs)
      else match_title cs)"

text \<open>
  What the dialog uses of the browser: the two encoders (each throws a URIError on a lone
  surrogate, \<open>Inl\<close>), the GET of the title proxy with its timeout in milliseconds
  (\<open>Inl\<close> when the request is rejected: a timeout, a network error, a bad status;
  \<open>Inr\<close> the \<open>data\<close> of the response), and the POST to the creation endpoint
  (\<open>Inl\<close> the value of \<open>error.response?.data?.error\<close> of the error it rejects with,
  \<open>Inr\<close> the \<open>data\<close> of the response).
\<close>

record post_request =
  post_path :: string
  post_data :: form_values
  post_headers :: "(string \<times> string) list"

record get_request =
  get_url :: string
  get_timeout :: nat

record browser =
  encodeURIComponent :: "string \<Rightarrow> string + string"
  encodeURI :: "string \<Rightarrow> string + string"
  axios_get :: "get_request \<Rightarrow> string + jsval"
  axios_post :: "post_request \<Rightarrow> jsval + jsval"

text \<open>
  The inner \<open>try\<close> of \<open>onSubmit\<close>: the title starts as the URL and is overwritten only
  when the proxy answered, the contents matched and the group is not empty; whatever is
  thrown on the way is caught and leaves the title as it was. The result is the title and
  the GET requests that were issued, each with its address and its timeout.
\<close>

definition lookup_title :: "browser \<Rightarrow> string \<Rightarrow> string \<times> get_request list" where
  "lookup_title b url =
     (case encodeURIComponent b url of
        Inl err \<Rightarrow> (url, [])
      | Inr q \<Rightarrow>
     (let get = \<lparr>get_url = ''https://api.allorigins.win/get?url='' @ q, get_timeout = 2000\<rparr>
      in
       ((case axios_get b get of
           Inl err \<Rightarrow> url
         | Inr data \<Rightarrow>
        (case get_prop data ''contents'' of
           JStr contents \<Rightarrow>
             (case match_title contents of
                None \<Rightarrow> url
              | Some m \<Rightarrow>
                  (if m = [] then url
                   else (case encodeURI b m of Inl err \<Rightarrow> url | Inr t \<Rightarrow> t)))
         | _ \<Rightarrow> url)),
        [get])))"

subsection \<open>Submitting\<close>

datatype ui_effect =
    SetLoading bool
  | FormReset
  | ModalClose
  | RouterPush string
  | RouterRefresh
  | Toast string string jsval
  | SetError field string

text \<open>The outer \<open>catch\<close> of \<open>onSubmit\<close>, given \<open>error.response?.data?.error\<close>.\<close>

definition on_error :: "jsval \<Rightarrow> ui_effect list" where
  "on_error errorMessage =
     (if errorMessage = JStr ''Please enter different keyword.'' then
        [SetError Keyword ''Please enter different keyword.'']
      else
        [Toast ''destructive'' ''Uh oh! Something went wrong.''
           (if truthy errorMessage then errorMessage
            else JStr ''There was a problem with your request.'')])"

text \<open>
  What follows the POST. Reading \<open>response.data.success\<close> of a response without data
  throws inside the outer \<open>try\<close>, an error that has no \<open>response\<close>.
\<close>

fun after_post :: "jsval + jsval \<Rightarrow> ui_effect list" where
  "after_post (Inl errorMessage) = on_error errorMessage"
| "after_post (Inr JUndefined) = on_error JUndefined"
| "after_post (Inr JNull) = on_error JUndefined"
| "after_post (Inr data) =
     (if truthy (get_prop data ''success'') then
        [FormReset, ModalClose, RouterPush ''/admin/url?page=1&per_page=10'', RouterRefresh,
         Toast ''success'' ''Success!'' (JStr ''Short URL has been created.'')]
      else [])"

record submission =
  lookups :: "get_request list"
  posted :: post_request
  effects :: "ui_effect list"

definition onSubmit :: "browser \<Rightarrow> form_values \<Rightarrow> submission" where
  "onSubmit b values =
     (let (title, gets) = lookup_title b (values_url values);
          request = \<lparr>post_path = ''/api/link'', post_data = values,
                     post_headers = [(''long-url-title'', title)]\<rparr>
      in \<lparr>lookups = gets, posted = request,
          effects = SetLoading True # after_post (axios_post b request) @ [SetLoading False]\<rparr>)"

text \<open>
  \<open>form.handleSubmit(onSubmit)\<close>: the resolver runs the schema on the fields; with
  issues it sets, for each field, the message of its first issue and does not call
  \<open>onSubmit\<close>; without, it calls \<open>onSubmit\<close> on the parsed values.
\<close>

datatype submit_result =
    Rejected "field \<Rightarrow> string option"
  | Submitted submission

definition handleSubmit :: "(string \<Rightarrow> bool) \<Rightarrow> browser \<Rightarrow> form_values \<Rightarrow> submit_result" where
  "handleSubmit is_url b raw =
     (case formSchema is_url raw of
        Inl issues \<Rightarrow> Rejected (map_of issues)
      | Inr values \<Rightarrow> Submitted (onSubmit b values))"

subsection \<open>The rule of the keyword, in the words of the specification\<close>

text \<open>
  Two or more characters from lowercase letters, digits, hyphen and underscore.
\<close>

definition slug_alphabet :: string where
  "slug_alphabet = ''abcdefghijklmnopqrstuvwxyz0123456789-_''"

definition spec_keyword_ok :: "string \<Rightarrow> bool" where
  "spec_keyword_ok s = (2 \<le> length s \<and> set s \<subseteq> set slug_alphabet)"

subsection \<open>The title pattern, in the words of a match\<close>

text \<open>
  A tag stands first behind a text when it begins at no position of the text, also not
  astride the end of the text. For the opening tag this says that no earlier opening tag
  precedes it, for the closing tag that the title holds no closing tag.
\<close>

definition starts_with :: "string \<Rightarrow> string \<Rightarrow> bool" where
  "starts_with tag s = (take (length tag) s = tag)"

definition tag_first :: "string \<Rightarrow> string \<Rightarrow> bool" where
  "tag_first tag text =
     list_all (\<lambda>p. \<not> starts_with tag (drop p (text @ tag))) [0..<length text]"

section \<open>Sample data\<close>

text \<open>The scenario of the specification: \<open>L1\<close> of user \<open>U1\<close> with keyword \<open>old\<close>.\<close>

definition link_L1 :: Link where
  "link_L1 = \<lparr>link_id = ''L1'', link_userId = ''U1'', link_url = ''https://example.com/a'',
              link_keyword = ''old'', link_title = ''Old title''\<rparr>"

definition link_L2 :: Link where
  "link_L2 = \<lparr>link_id = ''L2'', link_userId = ''U2'', link_url = ''https://example.com/b'',
              link_keyword = ''two'', link_title = ''Second''\<rparr>"

definition update_body :: "string \<Rightarrow> jsval" where
  "update_body kw =
     JObj [(''title'', JStr ''New title''), (''keyword'', JStr kw),
           (''url'', JStr ''https://example.com/new'')]"

definition sample_request :: "string option \<Rightarrow> string + jsval \<Rightarrow> string option \<Rightarrow> request" where
  "sample_request who body lid = \<lparr>auth_userId = who, json_body = body, params_linkId = lid\<rparr>"

definition fault_on :: "store_call \<Rightarrow> string \<Rightarrow> faults" where
  "fault_on c m = (\<lambda>x. if x = c then Some m else None)"

text \<open>A browser whose title proxy answers with the given outcome.\<close>

definition sample_browser :: "string + jsval \<Rightarrow> jsval + jsval \<Rightarrow> browser" where
  "sample_browser got answer =
     \<lparr>encodeURIComponent = Inr, encodeURI = Inr,
      axios_get = (\<lambda>g. got), axios_post = (\<lambda>r. answer)\<rparr>"

definition starts_https :: "string \<Rightarrow> bool" where
  "starts_https s = (take 8 s = ''https://'')"

section \<open>The branches of the handlers\<close>

text \<open>
  Each handler returns through exactly one of its branches. The two rules below list the
  branches with the conditions under which each is taken, so that a property of the
  outcome is proved by checking it branch by branch.
\<close>

lemmas store_defs = findUnique_id_def findUnique_keyword_def link_update_def link_delete_def

lemma find_id_Some: "find (\<lambda>l. link_id l = i) rows = Some l \<Longrightarrow> link_id l = i"
  by (auto simp: find_Some_iff)

lemma DELETE_cases:
  assumes "\<not> present (auth_userId req) \<Longrightarrow>
        P (respond (failure ''Unauthenticated.'') 401 rows [])"
    and "\<lbrakk>present (auth_userId req); \<not> present (params_linkId req)\<rbrakk> \<Longrightarrow>
        P (respond (failure ''Link ID is required.'') 400 rows [])"
    and "\<And>i m. \<lbrakk>present (auth_userId req); params_linkId req = Some i; i \<noteq> [];
          fl (FindUniqueId i) = Some m\<rbrakk> \<Longrightarrow>
        P (caught m rows [FindUniqueId i])"
    and "\<And>i. \<lbrakk>present (auth_userId req); params_linkId req = Some i; i \<noteq> [];
          fl (FindUniqueId i) = None; find (\<lambda>l. link_id l = i) rows = None\<rbrakk> \<Longrightarrow>
        P (respond (failure ''Link not found.'') 404 rows [FindUniqueId i])"
    and "\<And>i l. \<lbrakk>present (auth_userId req); params_linkId req = Some i; i \<noteq> [];
          fl (FindUniqueId i) = None; find (\<lambda>l. link_id l = i) rows = Some l;
          Some (link_userId l) \<noteq> auth_userId req\<rbrakk> \<Longrightarrow>
        P (respond (failure ''Unauthorized: You do not own this link.'') 403 rows
             [FindUniqueId i])"
    and "\<And>i l m. \<lbrakk>present (auth_userId req); params_linkId req = Some i; i \<noteq> [];
          fl (FindUniqueId i) = None; find (\<lambda>l. link_id l = i) rows = Some l;
          Some (link_userId l) = auth_userId req; fl (LinkDelete i) = Some m\<rbrakk> \<Longrightarrow>
        P (caught m rows [FindUniqueId i, LinkDelete i])"
    and "\<And>i l. \<lbrakk>present (auth_userId req); params_linkId req = Some i; i \<noteq> [];
          fl (FindUniqueId i) = None; find (\<lambda>l. link_id l = i) rows = Some l;
          Some (link_userId l) = auth_userId req; fl (LinkDelete i) = None\<rbrakk> \<Longrightarrow>
        P (respond (success l) 200 (filter (\<lambda>r. link_id r \<noteq> i) rows)
             [FindUniqueId i, LinkDelete i])"
  shows "P (DELETE fl req rows)"
proof (cases "present (auth_userId req)")
  case False
  then show ?thesis using assms(1) by (simp add: DELETE_def)
next
  case auth: True
  show ?thesis
  proof (cases "params_linkId req")
    case None
    then show ?thesis using assms(2) auth by (simp add: DELETE_def)
  next
    case (Some i)
    show ?thesis
    proof (cases "i = []")
      case True
      then show ?thesis using assms(2) auth Some by (simp add: DELETE_def)
    next
      case nonempty: False
      show ?thesis
      proof (cases "fl (FindUniqueId i)")
        case (Some m)
        then show ?thesis
          using assms(3)[OF auth \<open>params_linkId req = Some i\<close> nonempty Some] auth nonempty
            \<open>params_linkId req = Some i\<close>
          by (simp add: DELETE_def store_defs)
      next
        case nofault: None
        show ?thesis
        proof (cases "find (\<lambda>l. link_id l = i) rows")
          case None
          then show ?thesis
            using assms(4)[OF auth \<open>params_linkId req = Some i\<close> nonempty nofault None]
              auth nonempty nofault \<open>params_linkId req = Some i\<close>
            by (simp add: DELETE_def store_defs)
        next
          case found: (Some l)
          show ?thesis
          proof (cases "Some (link_userId l) = auth_userId req")
            case False
            then show ?thesis
              using assms(5)[OF auth \<open>params_linkId req = Some i\<close> nonempty nofault found False]
                auth nonempty nofault found \<open>params_linkId req = Some i\<close>
              by (simp add: DELETE_def store_defs)
          next
            case owner: True
            show ?thesis
            proof (cases "fl (LinkDelete i)")
              case (Some m)
              then show ?thesis
                using assms(6)[OF auth \<open>params_linkId req = Some i\<close> nonempty nofault found owner Some]
                  auth nonempty nofault found owner \<open>params_linkId req = Some i\<close>
                by (simp add: DELETE_def store_defs)
            next
              case None
              then show ?thesis
                using assms(7)[OF auth \<open>params_linkId req = Some i\<close> nonempty nofault found owner None]
                  auth nonempty nofault found owner \<open>params_linkId req = Some i\<close>
                by (simp add: DELETE_def store_defs)
            qed
          qed
        qed
      qed
    qed
  qed
qed

lemma PATCH_cases:
  assumes thrown: "\<And>m. body_fields req = Inl m \<Longrightarrow> P (caught m rows [])"
    and unauth: "\<And>t k u. \<lbrakk>body_fields req = Inr (t, k, u);
          \<not> present (auth_userId req)\<rbrakk> \<Longrightarrow>
        P (respond (failure ''Unauthenticated.'') 401 rows [])"
    and no_url: "\<And>t k u. \<lbrakk>body_fields req = Inr (t, k, u);
          present (auth_userId req); \<not> truthy u\<rbrakk> \<Longrightarrow>
        P (respond (failure ''URL is required.'') 400 rows [])"
    and no_keyword: "\<And>t k u. \<lbrakk>body_fields req = Inr (t, k, u);
          present (auth_userId req); truthy u; \<not> truthy k\<rbrakk> \<Longrightarrow>
        P (respond (failure ''Keyword is required.'') 400 rows [])"
    and no_title: "\<And>t k u. \<lbrakk>body_fields req = Inr (t, k, u);
          present (auth_userId req); truthy u; truthy k;
          \<not> truthy t\<rbrakk> \<Longrightarrow>
        P (respond (failure ''Title is required.'') 400 rows [])"
    and no_id: "\<And>t k u. \<lbrakk>body_fields req = Inr (t, k, u);
          present (auth_userId req); truthy u; truthy k; truthy t;
          \<not> present (params_linkId req)\<rbrakk> \<Longrightarrow>
        P (respond (failure ''Link ID is required.'') 400 rows [])"
    and find_fault: "\<And>t k u i m. \<lbrakk>body_fields req = Inr (t, k, u);
          present (auth_userId req); truthy u; truthy k; truthy t; params_linkId req = Some i;
          i \<noteq> []; fl (FindUniqueId i) = Some m\<rbrakk> \<Longrightarrow>
        P (caught m rows [FindUniqueId i])"
    and not_found: "\<And>t k u i. \<lbrakk>body_fields req = Inr (t, k, u);
          present (auth_userId req); truthy u; truthy k; truthy t; params_linkId req = Some i;
          i \<noteq> []; fl (FindUniqueId i) = None;
          find (\<lambda>l. link_id l = i) rows = None\<rbrakk> \<Longrightarrow>
        P (respond (failure ''Link not found.'') 404 rows [FindUniqueId i])"
    and forbidden: "\<And>t k u i l. \<lbrakk>body_fields req = Inr (t, k, u);
          present (auth_userId req); truthy u; truthy k; truthy t; params_linkId req = Some i;
          i \<noteq> []; fl (FindUniqueId i) = None;
          find (\<lambda>l. link_id l = i) rows = Some l;
          Some (link_userId l) \<noteq> auth_userId req\<rbrakk> \<Longrightarrow>
        P (respond (failure ''Unauthorized: You do not own this link.'') 403 rows
             [FindUniqueId i])"
    and keyword_fault: "\<And>t k u i l m. \<lbrakk>body_fields req = Inr (t, k, u);
          present (auth_userId req); truthy u; truthy k; truthy t; params_linkId req = Some i;
          i \<noteq> []; fl (FindUniqueId i) = None;
          find (\<lambda>l. link_id l = i) rows = Some l;
          Some (link_userId l) = auth_userId req;
          fl (FindUniqueKeyword k i) = Some m\<rbrakk> \<Longrightarrow>
        P (caught m rows [FindUniqueId i, FindUniqueKeyword k i])"
    and keyword_invalid: "\<And>t k u i l. \<lbrakk>body_fields req = Inr (t, k, u);
          present (auth_userId req); truthy u; truthy k; truthy t; params_linkId req = Some i;
          i \<noteq> []; fl (FindUniqueId i) = None;
          find (\<lambda>l. link_id l = i) rows = Some l;
          Some (link_userId l) = auth_userId req; fl (FindUniqueKeyword k i) = None;
          \<forall>s. k \<noteq> JStr s\<rbrakk> \<Longrightarrow>
        P (caught validation_error rows [FindUniqueId i, FindUniqueKeyword k i])"
    and conflict: "\<And>t k u i l s c. \<lbrakk>body_fields req = Inr (t, k, u);
          present (auth_userId req); truthy u; truthy k; truthy t; params_linkId req = Some i;
          i \<noteq> []; fl (FindUniqueId i) = None;
          find (\<lambda>l. link_id l = i) rows = Some l;
          Some (link_userId l) = auth_userId req; fl (FindUniqueKeyword k i) = None;
          k = JStr s;
          find (\<lambda>l. link_keyword l = s \<and> link_id l \<noteq> i) rows = Some c\<rbrakk> \<Longrightarrow>
        P (respond (failure ''Please enter different keyword.'') 400 rows
             [FindUniqueId i, FindUniqueKeyword k i])"
    and update_fault: "\<And>t k u i l s m. \<lbrakk>body_fields req = Inr (t, k, u);
          present (auth_userId req); truthy u; truthy k; truthy t; params_linkId req = Some i;
          i \<noteq> []; fl (FindUniqueId i) = None;
          find (\<lambda>l. link_id l = i) rows = Some l;
          Some (link_userId l) = auth_userId req; fl (FindUniqueKeyword k i) = None;
          k = JStr s;
          find (\<lambda>l. link_keyword l = s \<and> link_id l \<noteq> i) rows = None;
          fl (LinkUpdate i t k u) = Some m\<rbrakk> \<Longrightarrow>
        P (caught m rows
             [FindUniqueId i, FindUniqueKeyword k i, LinkUpdate i t k u])"
    and update_invalid: "\<And>t k u i l s. \<lbrakk>body_fields req = Inr (t, k, u);
          present (auth_userId req); truthy u; truthy k; truthy t; params_linkId req = Some i;
          i \<noteq> []; fl (FindUniqueId i) = None;
          find (\<lambda>l. link_id l = i) rows = Some l;
          Some (link_userId l) = auth_userId req; fl (FindUniqueKeyword k i) = None;
          k = JStr s;
          find (\<lambda>l. link_keyword l = s \<and> link_id l \<noteq> i) rows = None;
          fl (LinkUpdate i t k u) = None;
          \<not> (\<exists>a b. t = JStr a \<and> u = JStr b)\<rbrakk> \<Longrightarrow>
        P (caught validation_error rows
             [FindUniqueId i, FindUniqueKeyword k i, LinkUpdate i t k u])"
    and updated: "\<And>t k u i l s a b. \<lbrakk>body_fields req = Inr (t, k, u);
          present (auth_userId req); truthy u; truthy k; truthy t; params_linkId req = Some i;
          i \<noteq> []; fl (FindUniqueId i) = None;
          find (\<lambda>l. link_id l = i) rows = Some l;
          Some (link_userId l) = auth_userId req; fl (FindUniqueKeyword k i) = None;
          k = JStr s;
          find (\<lambda>l. link_keyword l = s \<and> link_id l \<noteq> i) rows = None;
          fl (LinkUpdate i t k u) = None; t = JStr a; u = JStr b\<rbrakk> \<Longrightarrow>
        P (respond (success (set_fields a s b l)) 200
             (map (\<lambda>r. if link_id r = i then set_fields a s b r else r) rows)
             [FindUniqueId i, FindUniqueKeyword k i, LinkUpdate i t k u])"
  shows "P (PATCH fl req rows)"

proof (cases "body_fields req")
  case (Inl m)
  then show ?thesis using thrown by (simp add: PATCH_def)
next
  case (Inr f)
  obtain t k u where f: "f = (t, k, u)" by (cases f) auto
  have bf: "body_fields req = Inr (t, k, u)" using Inr f by simp
  show ?thesis
  proof (cases "present (auth_userId req)")
    case False
    then show ?thesis using unauth[OF bf] bf by (simp add: PATCH_def)
  next
    case au: True
    show ?thesis
    proof (cases "truthy u \<and> truthy k \<and> truthy t")
      case False
      then show ?thesis
        using no_url[OF bf au] no_keyword[OF bf au] no_title[OF bf au] bf au
        by (auto simp add: PATCH_def)
    next
      case True
      then have tu: "truthy u" and tk: "truthy k" and tt: "truthy t" by simp_all
      note gate = bf au tu tk tt
      show ?thesis
      proof (cases "present (params_linkId req)")
        case False
        then show ?thesis
          using no_id[OF gate] gate
          by (cases "params_linkId req") (simp_all add: PATCH_def)
      next
        case True
        then obtain i where pid: "params_linkId req = Some i" and ne: "i \<noteq> []"
          by (cases "params_linkId req") auto
        note gate = gate pid ne
        show ?thesis
        proof (cases "fl (FindUniqueId i)")
          case (Some m)
          then show ?thesis
            using find_fault[OF gate Some] gate by (simp add: PATCH_def store_defs)
        next
          case nf1: None
          show ?thesis
          proof (cases "find (\<lambda>l. link_id l = i) rows")
            case None
            then show ?thesis
              using not_found[OF gate nf1 None] gate nf1 by (simp add: PATCH_def store_defs)
          next
            case fnd: (Some l)
            have lid: "link_id l = i" using fnd by (rule find_id_Some)
            show ?thesis
            proof (cases "Some (link_userId l) = auth_userId req")
              case False
              then show ?thesis
                using forbidden[OF gate nf1 fnd False] gate nf1 fnd
                by (simp add: PATCH_def store_defs)
            next
              case own: True
              note gate = gate nf1 fnd own
              show ?thesis
              proof (cases "fl (FindUniqueKeyword k i)")
                case (Some m)
                then show ?thesis
                  using keyword_fault[OF gate Some] gate lid
                  by (simp add: PATCH_def store_defs)
              next
                case nf2: None
                show ?thesis
                proof (cases "\<exists>s. k = JStr s")
                  case False
                  then have "\<forall>s. k \<noteq> JStr s" by simp
                  from keyword_invalid[OF gate nf2 this] False show ?thesis
                    using gate nf2 lid
                    by (cases k) (simp_all add: PATCH_def store_defs)
                next
                  case True
                  then obtain s where ks: "k = JStr s" ..
                  show ?thesis
                  proof (cases "find (\<lambda>l. link_keyword l = s \<and> link_id l \<noteq> i) rows")
                    case (Some c)
                    then show ?thesis
                      using conflict[OF gate nf2 ks Some] gate nf2 ks lid
                      by (simp add: PATCH_def store_defs)
                  next
                    case noc: None
                    note gate = gate nf2 ks noc
                    show ?thesis
                    proof (cases "fl (LinkUpdate i t k u)")
                      case (Some m)
                      then show ?thesis
                        using update_fault[OF gate Some] gate lid
                        by (simp add: PATCH_def store_defs)
                    next
                      case nf3: None
                      show ?thesis
                      proof (cases "\<exists>a b. t = JStr a \<and> u = JStr b")
                        case False
                        from update_invalid[OF gate nf3 False] False show ?thesis
                          using gate nf3 lid
                          by (cases t; cases u) (simp_all add: PATCH_def store_defs)
                      next
                        case True
                        then obtain a b where ta: "t = JStr a" and ub: "u = JStr b" by blast
                        from updated[OF gate nf3 ta ub] show ?thesis
                          using gate nf3 ta ub lid
                          by (simp add: PATCH_def store_defs)
                      qed
                    qed
                  qed
                qed
              qed
            qed
          qed
        qed
      qed
    qed
  qed
qed

lemmas reply_defs = respond_def caught_def NextResponse_json_def

lemmas sample_defs = link_L1_def link_L2_def update_body_def sample_request_def
  fault_on_def no_faults_def

lemmas run_defs = PATCH_def DELETE_def body_fields_def fields_present_def store_defs reply_defs

section \<open>Lookups in the table after a write\<close>

lemma find_after_delete_same:
  "find (\<lambda>r. link_id r = i) (filter (\<lambda>r. link_id r \<noteq> i) rows) = None"
  by (induction rows) auto

lemma find_after_delete_other:
  "j \<noteq> i \<Longrightarrow>
   find (\<lambda>r. link_id r = j) (filter (\<lambda>r. link_id r \<noteq> i) rows) =
   find (\<lambda>r. link_id r = j) rows"
  by (induction rows) auto

lemma find_after_update_same:
  "find (\<lambda>r. link_id r = i) rows = Some l \<Longrightarrow>
   find (\<lambda>r. link_id r = i)
     (map (\<lambda>r. if link_id r = i then set_fields t k u r else r) rows) =
   Some (set_fields t k u l)"
  by (induction rows) (auto simp: set_fields_def)

lemma find_after_update_other:
  "j \<noteq> i \<Longrightarrow>
   find (\<lambda>r. link_id r = j)
     (map (\<lambda>r. if link_id r = i then set_fields t k u r else r) rows) =
   find (\<lambda>r. link_id r = j) rows"
  by (induction rows) (auto simp: set_fields_def)

lemma update_keeps_ids:
  "map link_id (map (\<lambda>r. if link_id r = i then set_fields t k u r else r) rows) =
   map link_id rows"
  by (induction rows) (auto simp: set_fields_def)

lemma update_keeps_owners:
  "map link_userId (map (\<lambda>r. if link_id r = i then set_fields t k u r else r) rows) =
   map link_userId rows"
  by (induction rows) (auto simp: set_fields_def)

lemma own_keyword_no_conflict:
  assumes "distinct (map link_keyword rows)"
    and "find (\<lambda>r. link_id r = i) rows = Some l"
  shows "find (\<lambda>r. link_keyword r = link_keyword l \<and> link_id r \<noteq> i) rows = None"
proof -
  have l: "l \<in> set rows" and lid: "link_id l = i"
    using assms(2) by (auto simp: find_Some_iff)
  have inj: "inj_on link_keyword (set rows)"
    using assms(1) by (simp add: distinct_map)
  have "\<not> (\<exists>r \<in> set rows. link_keyword r = link_keyword l \<and> link_id r \<noteq> i)"
  proof
    assume "\<exists>r \<in> set rows. link_keyword r = link_keyword l \<and> link_id r \<noteq> i"
    then obtain r where r: "r \<in> set rows" "link_keyword r = link_keyword l" "link_id r \<noteq> i"
      by blast
    from inj r(1) l r(2) have "r = l" by (auto dest: inj_onD)
    with r(3) lid show False by simp
  qed
  then show ?thesis by (simp add: find_None_iff)
qed

lemma conflict_found:
  "\<exists>r \<in> set rows. link_keyword r = k \<and> link_id r \<noteq> i \<Longrightarrow>
   \<exists>c. find (\<lambda>r. link_keyword r = k \<and> link_id r \<noteq> i) rows = Some c"
  by (cases "find (\<lambda>r. link_keyword r = k \<and> link_id r \<noteq> i) rows")
     (auto simp: find_None_iff)

section \<open>Properties of every outcome\<close>

lemma PATCH_frame:
  "(status (reply (PATCH fl req rows)) = 200 \<longrightarrow>
      (\<exists>i t k u. params_linkId req = Some i \<and>
         filter is_mutation (calls (PATCH fl req rows)) = [LinkUpdate i t k u])) \<and>
   (status (reply (PATCH fl req rows)) \<noteq> 200 \<longrightarrow> db (PATCH fl req rows) = rows) \<and>
   (status (reply (PATCH fl req rows)) \<notin> {200, 500} \<longrightarrow>
      filter is_mutation (calls (PATCH fl req rows)) = [])"
  by (rule PATCH_cases
        [where P = "\<lambda>out. (status (reply out) = 200 \<longrightarrow>
           (\<exists>i t k u. params_linkId req = Some i \<and>
              filter is_mutation (calls out) = [LinkUpdate i t k u])) \<and>
           (status (reply out) \<noteq> 200 \<longrightarrow> db out = rows) \<and>
           (status (reply out) \<notin> {200, 500} \<longrightarrow> filter is_mutation (calls out) = [])"])
     (simp_all add: reply_defs)

lemma DELETE_frame:
  "(status (reply (DELETE fl req rows)) = 200 \<longrightarrow>
      (\<exists>i. params_linkId req = Some i \<and>
         filter is_mutation (calls (DELETE fl req rows)) = [LinkDelete i])) \<and>
   (status (reply (DELETE fl req rows)) \<noteq> 200 \<longrightarrow> db (DELETE fl req rows) = rows) \<and>
   (status (reply (DELETE fl req rows)) \<notin> {200, 500} \<longrightarrow>
      filter is_mutation (calls (DELETE fl req rows)) = [])"
  by (rule DELETE_cases
        [where P = "\<lambda>out. (status (reply out) = 200 \<longrightarrow>
           (\<exists>i. params_linkId req = Some i \<and>
              filter is_mutation (calls out) = [LinkDelete i])) \<and>
           (status (reply out) \<noteq> 200 \<longrightarrow> db out = rows) \<and>
           (status (reply out) \<notin> {200, 500} \<longrightarrow> filter is_mutation (calls out) = [])"])
     (simp_all add: reply_defs)

lemma PATCH_shape:
  "(\<exists>l. reply (PATCH fl req rows) = NextResponse_json (success l) 200) \<or>
   (\<exists>m. json (reply (PATCH fl req rows)) = failure m \<and>
        status (reply (PATCH fl req rows)) \<in> {400, 401, 403, 404, 500})"
  by (rule PATCH_cases
        [where P = "\<lambda>out. (\<exists>l. reply out = NextResponse_json (success l) 200) \<or>
           (\<exists>m. json (reply out) = failure m \<and> status (reply out) \<in> {400, 401, 403, 404, 500})"])
     (auto simp add: reply_defs)

lemma DELETE_shape:
  "(\<exists>l. reply (DELETE fl req rows) = NextResponse_json (success l) 200) \<or>
   (\<exists>m. json (reply (DELETE fl req rows)) = failure m \<and>
        status (reply (DELETE fl req rows)) \<in> {400, 401, 403, 404, 500})"
  by (rule DELETE_cases
        [where P = "\<lambda>out. (\<exists>l. reply out = NextResponse_json (success l) 200) \<or>
           (\<exists>m. json (reply out) = failure m \<and> status (reply out) \<in> {400, 401, 403, 404, 500})"])
     (auto simp add: reply_defs)

lemma PATCH_fault:
  "\<forall>c m. c \<in> set (calls (PATCH fl req rows)) \<and> fl c = Some m \<longrightarrow>
     reply (PATCH fl req rows) = NextResponse_json (failure m) 500"
  by (rule PATCH_cases
        [where P = "\<lambda>out. \<forall>c m. c \<in> set (calls out) \<and> fl c = Some m \<longrightarrow>
           reply out = NextResponse_json (failure m) 500"])
     (auto simp add: reply_defs)

lemma DELETE_fault:
  "\<forall>c m. c \<in> set (calls (DELETE fl req rows)) \<and> fl c = Some m \<longrightarrow>
     reply (DELETE fl req rows) = NextResponse_json (failure m) 500"
  by (rule DELETE_cases
        [where P = "\<lambda>out. \<forall>c m. c \<in> set (calls out) \<and> fl c = Some m \<longrightarrow>
           reply out = NextResponse_json (failure m) 500"])
     (auto simp add: reply_defs)

lemma DELETE_success_effect:
  "status (reply (DELETE fl req rows)) = 200 \<longrightarrow>
     (\<exists>i l. params_linkId req = Some i \<and> i \<noteq> [] \<and> present (auth_userId req) \<and>
        find (\<lambda>r. link_id r = i) rows = Some l \<and>
        auth_userId req = Some (link_userId l) \<and>
        fl (FindUniqueId i) = None \<and> fl (LinkDelete i) = None \<and>
        reply (DELETE fl req rows) = NextResponse_json (success l) 200 \<and>
        calls (DELETE fl req rows) = [FindUniqueId i, LinkDelete i] \<and>
        db (DELETE fl req rows) = filter (\<lambda>r. link_id r \<noteq> i) rows)"
  by (rule DELETE_cases
        [where P = "\<lambda>out. status (reply out) = 200 \<longrightarrow>
           (\<exists>i l. params_linkId req = Some i \<and> i \<noteq> [] \<and> present (auth_userId req) \<and>
              find (\<lambda>r. link_id r = i) rows = Some l \<and>
              auth_userId req = Some (link_userId l) \<and>
              fl (FindUniqueId i) = None \<and> fl (LinkDelete i) = None \<and>
              reply out = NextResponse_json (success l) 200 \<and>
              calls out = [FindUniqueId i, LinkDelete i] \<and>
              db out = filter (\<lambda>r. link_id r \<noteq> i) rows)"])
     (auto simp add: reply_defs)

lemma DELETE_precondition_frame:
  "\<not> present (auth_userId req) \<or> \<not> present (params_linkId req) \<or>
   (\<exists>i. params_linkId req = Some i \<and>
      (find (\<lambda>r. link_id r = i) rows = None \<or>
       (\<exists>l. find (\<lambda>r. link_id r = i) rows = Some l \<and>
            auth_userId req \<noteq> Some (link_userId l)))) \<longrightarrow>
   status (reply (DELETE fl req rows)) \<noteq> 200 \<and> db (DELETE fl req rows) = rows \<and>
   filter is_mutation (calls (DELETE fl req rows)) = []"
  by (rule DELETE_cases
        [where P = "\<lambda>out. \<not> present (auth_userId req) \<or> \<not> present (params_linkId req) \<or>
           (\<exists>i. params_linkId req = Some i \<and>
              (find (\<lambda>r. link_id r = i) rows = None \<or>
               (\<exists>l. find (\<lambda>r. link_id r = i) rows = Some l \<and>
                    auth_userId req \<noteq> Some (link_userId l)))) \<longrightarrow>
           status (reply out) \<noteq> 200 \<and> db out = rows \<and>
           filter is_mutation (calls out) = []"])
     (auto simp add: reply_defs)

lemma PATCH_success_effect:
  "status (reply (PATCH fl req rows)) = 200 \<longrightarrow>
     (\<exists>i l t k u. params_linkId req = Some i \<and> i \<noteq> [] \<and> present (auth_userId req) \<and>
        body_fields req = Inr (JStr t, JStr k, JStr u) \<and> t \<noteq> [] \<and> k \<noteq> [] \<and> u \<noteq> [] \<and>
        find (\<lambda>r. link_id r = i) rows = Some l \<and>
        auth_userId req = Some (link_userId l) \<and>
        find (\<lambda>r. link_keyword r = k \<and> link_id r \<noteq> i) rows = None \<and>
        fl (FindUniqueId i) = None \<and> fl (FindUniqueKeyword (JStr k) i) = None \<and>
        fl (LinkUpdate i (JStr t) (JStr k) (JStr u)) = None \<and>
        reply (PATCH fl req rows) =
          NextResponse_json
            (success (l\<lparr>link_title := t, link_keyword := k, link_url := u\<rparr>)) 200 \<and>
        calls (PATCH fl req rows) =
          [FindUniqueId i, FindUniqueKeyword (JStr k) i,
           LinkUpdate i (JStr t) (JStr k) (JStr u)] \<and>
        db (PATCH fl req rows) =
          map (\<lambda>r. if link_id r = i
                    then r\<lparr>link_title := t, link_keyword := k, link_url := u\<rparr> else r) rows)"
  by (rule PATCH_cases
        [where P = "\<lambda>out. status (reply out) = 200 \<longrightarrow>
     (\<exists>i l t k u. params_linkId req = Some i \<and> i \<noteq> [] \<and> present (auth_userId req) \<and>
        body_fields req = Inr (JStr t, JStr k, JStr u) \<and> t \<noteq> [] \<and> k \<noteq> [] \<and> u \<noteq> [] \<and>
        find (\<lambda>r. link_id r = i) rows = Some l \<and>
        auth_userId req = Some (link_userId l) \<and>
        find (\<lambda>r. link_keyword r = k \<and> link_id r \<noteq> i) rows = None \<and>
        fl (FindUniqueId i) = None \<and> fl (FindUniqueKeyword (JStr k) i) = None \<and>
        fl (LinkUpdate i (JStr t) (JStr k) (JStr u)) = None \<and>
        reply out =
          NextResponse_json
            (success (l\<lparr>link_title := t, link_keyword := k, link_url := u\<rparr>)) 200 \<and>
        calls out =
          [FindUniqueId i, FindUniqueKeyword (JStr k) i,
           LinkUpdate i (JStr t) (JStr k) (JStr u)] \<and>
        db out =
          map (\<lambda>r. if link_id r = i
                    then r\<lparr>link_title := t, link_keyword := k, link_url := u\<rparr> else r) rows)"])
     (auto simp add: reply_defs set_fields_def)

lemma no_conflict_none:
  "find (\<lambda>r. link_keyword r = k \<and> link_id r \<noteq> i) rows = None \<Longrightarrow>
   r \<in> set rows \<Longrightarrow> link_keyword r = k \<Longrightarrow> link_id r = i"
  by (auto simp: find_None_iff)

lemma PATCH_precondition_frame:
  "\<not> present (auth_userId req) \<or> \<not> fields_present req \<or> \<not> present (params_linkId req) \<or>
   (\<exists>i. params_linkId req = Some i \<and>
      (find (\<lambda>r. link_id r = i) rows = None \<or>
       (\<exists>l. find (\<lambda>r. link_id r = i) rows = Some l \<and>
            auth_userId req \<noteq> Some (link_userId l)) \<or>
       (\<exists>t k u. body_fields req = Inr (t, JStr k, u) \<and>
            (\<exists>r \<in> set rows. link_keyword r = k \<and> link_id r \<noteq> i)))) \<longrightarrow>
   status (reply (PATCH fl req rows)) \<noteq> 200 \<and> db (PATCH fl req rows) = rows \<and>
   filter is_mutation (calls (PATCH fl req rows)) = []"
  by (rule PATCH_cases
        [where P = "\<lambda>out.
   \<not> present (auth_userId req) \<or> \<not> fields_present req \<or> \<not> present (params_linkId req) \<or>
   (\<exists>i. params_linkId req = Some i \<and>
      (find (\<lambda>r. link_id r = i) rows = None \<or>
       (\<exists>l. find (\<lambda>r. link_id r = i) rows = Some l \<and>
            auth_userId req \<noteq> Some (link_userId l)) \<or>
       (\<exists>t k u. body_fields req = Inr (t, JStr k, u) \<and>
            (\<exists>r \<in> set rows. link_keyword r = k \<and> link_id r \<noteq> i)))) \<longrightarrow>
   status (reply out) \<noteq> 200 \<and> db out = rows \<and>
   filter is_mutation (calls out) = []"])
     (auto simp add: reply_defs fields_present_def dest: no_conflict_none)

section \<open>The keyword rule and the title pattern\<close>

text \<open>
  The test of the regular expression is the rule of the specification, and a title the
  pattern yields stands between the two tags in the contents, on one line.
\<close>

lemma regex_slug_test_iff:
  "regex_slug_test s \<longleftrightarrow> s \<noteq> [] \<and> (\<forall>c \<in> set s. slug_class c)"
  by (induction s rule: regex_slug_test.induct) auto

lemma slug_codes:
  "(of_char ` set slug_alphabet :: nat set) = {97..122} \<union> {48..57} \<union> {95, 45}"
  by (simp add: slug_alphabet_def atLeastAtMost_upt) blast

lemma underscore_code: "c = CHR ''_'' \<longleftrightarrow> (of_char c :: nat) = 95"
  using of_char_eq_iff [of c "CHR ''_''", where ?'a = nat] by simp

lemma hyphen_code: "c = CHR ''-'' \<longleftrightarrow> (of_char c :: nat) = 45"
  using of_char_eq_iff [of c "CHR ''-''", where ?'a = nat] by simp

lemma slug_class_iff: "slug_class c \<longleftrightarrow> c \<in> set slug_alphabet"
proof -
  have "c \<in> set slug_alphabet \<longleftrightarrow> (of_char c :: nat) \<in> of_char ` set slug_alphabet"
    by (auto simp: image_iff)
  also have "\<dots> \<longleftrightarrow> slug_class c"
    unfolding slug_codes
    by (auto simp add: slug_class_def in_range_def underscore_code hyphen_code)
  finally show ?thesis by simp
qed

lemma regex_slug_test_spec:
  "length s \<ge> 2 \<and> regex_slug_test s \<longleftrightarrow> spec_keyword_ok s"
  by (auto simp add: regex_slug_test_iff spec_keyword_ok_def slug_class_iff)


lemma capture_title_sound:
  "capture_title s = Some t \<Longrightarrow>
   (\<exists>rest. s = t @ ''</title>'' @ rest) \<and> (\<forall>c \<in> set t. \<not> line_terminator c)"
proof (induction s arbitrary: t)
  case Nil
  then show ?case by simp
next
  case (Cons c cs)
  show ?case
  proof (cases "take 8 (c # cs) = ''</title>''")
    case True
    then have "c # cs = ''</title>'' @ drop 8 (c # cs)"
      by (metis append_take_drop_id)
    moreover have "t = []" using Cons.prems True by simp
    ultimately show ?thesis by auto
  next
    case False
    with Cons.prems obtain t' where t': "capture_title cs = Some t'" "t = c # t'"
      and c: "\<not> line_terminator c"
      by (auto split: if_splits)
    from Cons.IH [OF t'(1)] t'(2) c show ?thesis by auto
  qed
qed

lemma match_title_sound:
  "match_title s = Some t \<Longrightarrow>
   (\<exists>before rest. s = before @ ''<title>'' @ t @ ''</title>'' @ rest) \<and>
   (\<forall>c \<in> set t. \<not> line_terminator c)"
proof (induction s)
  case Nil
  then show ?case by simp
next
  case (Cons c cs)
  show ?case
  proof (cases "take 7 (c # cs) = ''<title>'' \<and> capture_title (drop 7 (c # cs)) = Some t")
    case True
    then have s: "c # cs = ''<title>'' @ drop 7 (c # cs)"
      by (metis append_take_drop_id)
    from True capture_title_sound obtain rest
      where "drop 7 (c # cs) = t @ ''</title>'' @ rest" and nl: "\<forall>c \<in> set t. \<not> line_terminator c"
      by blast
    with s have "c # cs = [] @ ''<title>'' @ t @ ''</title>'' @ rest" by simp
    with nl show ?thesis by blast
  next
    case False
    with Cons.prems have "match_title cs = Some t"
      by (auto split: if_splits option.splits)
    from Cons.IH [OF this] obtain before rest
      where "cs = before @ ''<title>'' @ t @ ''</title>'' @ rest"
        and nl: "\<forall>c \<in> set t. \<not> line_terminator c"
      by blast
    then have "c # cs = (c # before) @ ''<title>'' @ t @ ''</title>'' @ rest" by simp
    with nl show ?thesis by blast
  qed
qed

lemma take_past: "n \<le> length xs \<Longrightarrow> take n (xs @ ys) = take n xs"
  by simp

lemma tag_first_iff:
  "tag_first tag text \<longleftrightarrow>
   (\<forall>p < length text. take (length tag) (drop p (text @ tag)) \<noteq> tag)"
  by (auto simp add: tag_first_def starts_with_def list_all_iff)

lemma tag_first_Cons:
  assumes "tag_first tag (x # text)"
  shows "tag_first tag text" and "take (length tag) (x # text @ tag) \<noteq> tag"
proof -
  from assms have all: "\<forall>p < Suc (length text). take (length tag) (drop p (x # text @ tag)) \<noteq> tag"
    by (simp add: tag_first_iff)
  show "tag_first tag text"
    unfolding tag_first_iff
  proof (intro allI impI)
    fix p assume "p < length text"
    then have "Suc p < Suc (length text)" by simp
    with all have "take (length tag) (drop (Suc p) (x # text @ tag)) \<noteq> tag" by blast
    then show "take (length tag) (drop p (text @ tag)) \<noteq> tag" by simp
  qed
  from all have "take (length tag) (drop 0 (x # text @ tag)) \<noteq> tag" by blast
  then show "take (length tag) (x # text @ tag) \<noteq> tag" by simp
qed

lemma capture_title_total:
  "\<forall>x \<in> set m. \<not> line_terminator x \<Longrightarrow> capture_title (m @ ''</title>'' @ rest) \<noteq> None"
  by (induction m) auto

lemma match_title_total:
  "\<forall>x \<in> set m. \<not> line_terminator x \<Longrightarrow>
   match_title (before @ ''<title>'' @ m @ ''</title>'' @ rest) \<noteq> None"
proof (induction before)
  case Nil
  from capture_title_total [OF Nil] obtain t
    where "capture_title (m @ ''</title>'' @ rest) = Some t" by blast
  then show ?case by simp
next
  case (Cons x before)
  from Cons.IH [OF Cons.prems] show ?case
    by (auto split: option.splits)
qed

lemma match_title_None_iff:
  "match_title c = None \<longleftrightarrow>
   (\<forall>before m rest. c = before @ ''<title>'' @ m @ ''</title>'' @ rest \<longrightarrow>
      (\<exists>x \<in> set m. line_terminator x))"
proof
  assume none: "match_title c = None"
  show "\<forall>before m rest. c = before @ ''<title>'' @ m @ ''</title>'' @ rest \<longrightarrow>
      (\<exists>x \<in> set m. line_terminator x)"
  proof (intro allI impI)
    fix before m rest
    assume c: "c = before @ ''<title>'' @ m @ ''</title>'' @ rest"
    show "\<exists>x \<in> set m. line_terminator x"
    proof (rule ccontr)
      assume "\<not> (\<exists>x \<in> set m. line_terminator x)"
      then have "\<forall>x \<in> set m. \<not> line_terminator x" by blast
      from match_title_total [OF this] c none show False by blast
    qed
  qed
next
  assume all: "\<forall>before m rest. c = before @ ''<title>'' @ m @ ''</title>'' @ rest \<longrightarrow>
      (\<exists>x \<in> set m. line_terminator x)"
  show "match_title c = None"
  proof (cases "match_title c")
    case None
    then show ?thesis .
  next
    case (Some t)
    from match_title_sound [OF Some] all show ?thesis by blast
  qed
qed

lemma capture_title_complete:
  assumes "\<forall>x \<in> set m. \<not> line_terminator x" and "tag_first ''</title>'' m"
  shows "capture_title (m @ ''</title>'' @ rest) = Some m"
  using assms
proof (induction m)
  case Nil
  then show ?case by simp
next
  case (Cons x m)
  have len: "length ''</title>'' = 8" by simp
  have rest_first: "tag_first ''</title>'' m"
    using Cons.prems(2) by (rule tag_first_Cons(1))
  have here: "take 8 (x # m @ ''</title>'') \<noteq> ''</title>''"
    using tag_first_Cons(2) [OF Cons.prems(2)] by (simp only: len not_False_eq_True)
  have "take 8 ((x # m @ ''</title>'') @ rest) = take 8 (x # m @ ''</title>'')"
    by (rule take_past) simp
  with here have no: "take 8 (x # m @ ''</title>'' @ rest) \<noteq> ''</title>''" by simp
  have ih: "capture_title (m @ ''</title>'' @ rest) = Some m"
    using Cons.IH Cons.prems(1) rest_first by simp
  from Cons.prems(1) have "\<not> line_terminator x" by simp
  with no ih show ?case by simp
qed

lemma match_title_complete:
  assumes "tag_first ''<title>'' before" and "capture_title s = Some m"
  shows "match_title (before @ ''<title>'' @ s) = Some m"
  using assms(1)
proof (induction before)
  case Nil
  from assms(2) show ?case by simp
next
  case (Cons x before)
  have len: "length ''<title>'' = 7" by simp
  have rest_first: "tag_first ''<title>'' before"
    using Cons.prems by (rule tag_first_Cons(1))
  have here: "take 7 (x # before @ ''<title>'') \<noteq> ''<title>''"
    using tag_first_Cons(2) [OF Cons.prems] by (simp only: len not_False_eq_True)
  have "take 7 ((x # before @ ''<title>'') @ s) = take 7 (x # before @ ''<title>'')"
    by (rule take_past) simp
  with here have no: "take 7 (x # before @ ''<title>'' @ s) \<noteq> ''<title>''" by simp
  have "match_title ((x # before) @ ''<title>'' @ s) =
      match_title (x # before @ ''<title>'' @ s)"
    by (simp only: append_Cons)
  also have "\<dots> = match_title (before @ ''<title>'' @ s)"
    by (subst match_title.simps) (simp only: no if_False)
  also have "\<dots> = Some m"
    by (rule Cons.IH [OF rest_first])
  finally show ?case .
qed

lemma match_title_first:
  assumes "tag_first ''<title>'' before" and "tag_first ''</title>'' m"
    and "\<forall>x \<in> set m. \<not> line_terminator x"
  shows "match_title (before @ ''<title>'' @ m @ ''</title>'' @ rest) = Some m"
  using match_title_complete [OF assms(1) capture_title_complete [OF assms(3) assms(2)]] .


lemma lookup_title_cases:
  "(\<forall>e. encodeURIComponent b url = Inl e \<longrightarrow> lookup_title b url = (url, [])) \<and>
   (\<forall>q. encodeURIComponent b url = Inr q \<longrightarrow>
      snd (lookup_title b url) =
        [\<lparr>get_url = ''https://api.allorigins.win/get?url='' @ q, get_timeout = 2000\<rparr>] \<and>
      (\<forall>e. axios_get b
              \<lparr>get_url = ''https://api.allorigins.win/get?url='' @ q, get_timeout = 2000\<rparr> =
            Inl e \<longrightarrow> fst (lookup_title b url) = url) \<and>
      (\<forall>data. axios_get b
              \<lparr>get_url = ''https://api.allorigins.win/get?url='' @ q, get_timeout = 2000\<rparr> =
            Inr data \<longrightarrow>
         ((\<forall>c. get_prop data ''contents'' \<noteq> JStr c) \<longrightarrow> fst (lookup_title b url) = url) \<and>
         (\<forall>c. get_prop data ''contents'' = JStr c \<longrightarrow>
            fst (lookup_title b url) =
              (case match_title c of
                 None \<Rightarrow> url
               | Some m \<Rightarrow>
                   if m = [] then url
                   else (case encodeURI b m of Inl e \<Rightarrow> url | Inr t \<Rightarrow> t)))))"
  by (auto simp add: lookup_title_def Let_def split: jsval.splits)

lemma onSubmit_parts:
  "lookups (onSubmit b values) = snd (lookup_title b (values_url values))"
  "posted (onSubmit b values) =
     \<lparr>post_path = ''/api/link'', post_data = values,
      post_headers = [(''long-url-title'', fst (lookup_title b (values_url values)))]\<rparr>"
  "effects (onSubmit b values) =
     SetLoading True # after_post (axios_post b (posted (onSubmit b values))) @
     [SetLoading False]"
  by (simp_all add: onSubmit_def Let_def split: prod.split)

lemma after_post_accepted:
  "truthy (get_prop data ''success'') \<Longrightarrow>
   after_post (Inr data) =
     [FormReset, ModalClose, RouterPush ''/admin/url?page=1&per_page=10'', RouterRefresh,
      Toast ''success'' ''Success!'' (JStr ''Short URL has been created.'')]"
  by (cases data) simp_all

section \<open>The claims\<close>

text \<open>
  C1. A request whose caller resolved to an identity other than the \<open>userId\<close> of the
  stored link never changes the table and never answers 200, for \<open>PATCH\<close> and for
  \<open>DELETE\<close>, whatever else it carries and whatever the store does; and when the rest of
  the request is valid (the link identifier is not empty, the lookup raises no fault and,
  for \<open>PATCH\<close>, the three body fields are present) the answer is 403 with the message
  of non-ownership.
\<close>

theorem ownership_enforced:
  assumes who: "auth_userId req = Some u" "u \<noteq> []"
    and path: "params_linkId req = Some lid"
    and stored: "find (\<lambda>r. link_id r = lid) rows = Some l"
    and other: "link_userId l \<noteq> u"
  shows "db (DELETE fl req rows) = rows \<and>
         filter is_mutation (calls (DELETE fl req rows)) = [] \<and>
         status (reply (DELETE fl req rows)) \<noteq> 200 \<and>
         db (PATCH fl req rows) = rows \<and>
         filter is_mutation (calls (PATCH fl req rows)) = [] \<and>
         status (reply (PATCH fl req rows)) \<noteq> 200 \<and>
         (lid \<noteq> [] \<and> fl (FindUniqueId lid) = None \<longrightarrow>
            reply (DELETE fl req rows) =
            NextResponse_json (failure ''Unauthorized: You do not own this link.'') 403) \<and>
         (lid \<noteq> [] \<and> fl (FindUniqueId lid) = None \<and> fields_present req \<longrightarrow>
            reply (PATCH fl req rows) =
            NextResponse_json (failure ''Unauthorized: You do not own this link.'') 403)"
proof -
  have del: "db (DELETE fl req rows) = rows \<and>
         filter is_mutation (calls (DELETE fl req rows)) = [] \<and>
         status (reply (DELETE fl req rows)) \<noteq> 200 \<and>
         (lid \<noteq> [] \<and> fl (FindUniqueId lid) = None \<longrightarrow>
            reply (DELETE fl req rows) =
            NextResponse_json (failure ''Unauthorized: You do not own this link.'') 403)"
    by (rule DELETE_cases
          [where P = "\<lambda>out. db out = rows \<and> filter is_mutation (calls out) = [] \<and>
             status (reply out) \<noteq> 200 \<and>
             (lid \<noteq> [] \<and> fl (FindUniqueId lid) = None \<longrightarrow>
                reply out =
                NextResponse_json (failure ''Unauthorized: You do not own this link.'') 403)"])
       (use assms in \<open>auto simp add: reply_defs\<close>)
  have upd: "db (PATCH fl req rows) = rows \<and>
         filter is_mutation (calls (PATCH fl req rows)) = [] \<and>
         status (reply (PATCH fl req rows)) \<noteq> 200 \<and>
         (lid \<noteq> [] \<and> fl (FindUniqueId lid) = None \<and> fields_present req \<longrightarrow>
            reply (PATCH fl req rows) =
            NextResponse_json (failure ''Unauthorized: You do not own this link.'') 403)"
    by (rule PATCH_cases
          [where P = "\<lambda>out. db out = rows \<and> filter is_mutation (calls out) = [] \<and>
             status (reply out) \<noteq> 200 \<and>
             (lid \<noteq> [] \<and> fl (FindUniqueId lid) = None \<and> fields_present req \<longrightarrow>
                reply out =
                NextResponse_json (failure ''Unauthorized: You do not own this link.'') 403)"])
       (use assms in \<open>auto simp add: reply_defs fields_present_def\<close>)
  from del upd show ?thesis by blast
qed


theorem ownership_enforced_witness:
  "reply (DELETE no_faults
      (sample_request (Some ''U2'') (Inr (update_body ''new'')) (Some ''L1''))
      [link_L1, link_L2]) =
     NextResponse_json (failure ''Unauthorized: You do not own this link.'') 403 \<and>
   reply (PATCH no_faults
      (sample_request (Some ''U2'') (Inr (update_body ''new'')) (Some ''L1''))
      [link_L1, link_L2]) =
     NextResponse_json (failure ''Unauthorized: You do not own this link.'') 403 \<and>
   db (DELETE no_faults
      (sample_request (Some ''U2'') (Inr (update_body ''new'')) (Some ''L1''))
      [link_L1, link_L2]) = [link_L1, link_L2] \<and>
   db (PATCH no_faults
      (sample_request (Some ''U2'') (Inr (update_body ''new'')) (Some ''L1''))
      [link_L1, link_L2]) = [link_L1, link_L2]"
proof -
  let ?req = "sample_request (Some ''U2'') (Inr (update_body ''new'')) (Some ''L1'')"
  have who: "auth_userId ?req = Some ''U2''" "''U2'' \<noteq> []"
    and path: "params_linkId ?req = Some ''L1''"
    and stored: "find (\<lambda>r. link_id r = ''L1'') [link_L1, link_L2] = Some link_L1"
    and other: "link_userId link_L1 \<noteq> ''U2''"
    and rest: "''L1'' \<noteq> []" "no_faults (FindUniqueId ''L1'') = None" "fields_present ?req"
    by (simp_all add: sample_defs fields_present_def body_fields_def)
  from ownership_enforced [OF who path stored other, of no_faults] rest
  show ?thesis by simp
qed

text \<open>
  C2, as stated, fails: \<open>PATCH\<close> tests the link identifier after the body fields, so
  an update request that misses both the identifier and a field is answered with the
  message of the field.
\<close>

theorem link_id_checked_after_fields:
  "reply (PATCH no_faults (sample_request (Some ''U1'') (Inr (JObj [])) None)
      [link_L1, link_L2]) =
     NextResponse_json (failure ''URL is required.'') 400 \<and>
   reply (PATCH no_faults (sample_request (Some ''U1'') (Inr (JObj [])) None)
      [link_L1, link_L2]) \<noteq>
     NextResponse_json (failure ''Link ID is required.'') 400"
  by (simp add: run_defs sample_defs failure_def)

text \<open>
  C2, amended. \<open>DELETE\<close> tests the identity (401) and then the link identifier (400,
  "Link ID is required."). \<open>PATCH\<close>, once the body has been read, tests the identity
  (401), then \<open>url\<close>, \<open>keyword\<close>, \<open>title\<close> in this order (400 naming the field),
  then the link identifier (400, "Link ID is required."); the first failure wins.
\<close>

theorem precondition_order:
  "(\<not> present (auth_userId req) \<longrightarrow>
      reply (DELETE fl req rows) = NextResponse_json (failure ''Unauthenticated.'') 401) \<and>
   (present (auth_userId req) \<and> \<not> present (params_linkId req) \<longrightarrow>
      reply (DELETE fl req rows) = NextResponse_json (failure ''Link ID is required.'') 400) \<and>
   (body_fields req = Inr (title, keyword, url) \<longrightarrow>
      (\<not> present (auth_userId req) \<longrightarrow>
         reply (PATCH fl req rows) = NextResponse_json (failure ''Unauthenticated.'') 401) \<and>
      (present (auth_userId req) \<and> \<not> truthy url \<longrightarrow>
         reply (PATCH fl req rows) = NextResponse_json (failure ''URL is required.'') 400) \<and>
      (present (auth_userId req) \<and> truthy url \<and> \<not> truthy keyword \<longrightarrow>
         reply (PATCH fl req rows) =
         NextResponse_json (failure ''Keyword is required.'') 400) \<and>
      (present (auth_userId req) \<and> truthy url \<and> truthy keyword \<and> \<not> truthy title \<longrightarrow>
         reply (PATCH fl req rows) = NextResponse_json (failure ''Title is required.'') 400) \<and>
      (present (auth_userId req) \<and> truthy url \<and> truthy keyword \<and> truthy title \<and>
       \<not> present (params_linkId req) \<longrightarrow>
         reply (PATCH fl req rows) =
         NextResponse_json (failure ''Link ID is required.'') 400))"
proof -
  have del: "(\<not> present (auth_userId req) \<longrightarrow>
      reply (DELETE fl req rows) = NextResponse_json (failure ''Unauthenticated.'') 401) \<and>
   (present (auth_userId req) \<and> \<not> present (params_linkId req) \<longrightarrow>
      reply (DELETE fl req rows) = NextResponse_json (failure ''Link ID is required.'') 400)"
    by (cases "params_linkId req") (simp_all add: DELETE_def reply_defs)
  have upd: "body_fields req = Inr (title, keyword, url) \<Longrightarrow>
      (\<not> present (auth_userId req) \<longrightarrow>
         reply (PATCH fl req rows) = NextResponse_json (failure ''Unauthenticated.'') 401) \<and>
      (present (auth_userId req) \<and> \<not> truthy url \<longrightarrow>
         reply (PATCH fl req rows) = NextResponse_json (failure ''URL is required.'') 400) \<and>
      (present (auth_userId req) \<and> truthy url \<and> \<not> truthy keyword \<longrightarrow>
         reply (PATCH fl req rows) =
         NextResponse_json (failure ''Keyword is required.'') 400) \<and>
      (present (auth_userId req) \<and> truthy url \<and> truthy keyword \<and> \<not> truthy title \<longrightarrow>
         reply (PATCH fl req rows) = NextResponse_json (failure ''Title is required.'') 400) \<and>
      (present (auth_userId req) \<and> truthy url \<and> truthy keyword \<and> truthy title \<and>
       \<not> present (params_linkId req) \<longrightarrow>
         reply (PATCH fl req rows) =
         NextResponse_json (failure ''Link ID is required.'') 400)"
    by (cases "params_linkId req") (simp_all add: PATCH_def reply_defs)
  from del upd show ?thesis by blast
qed

theorem precondition_order_witness:
  "reply (DELETE no_faults (sample_request None (Inr (JObj [])) None) [link_L1]) =
     NextResponse_json (failure ''Unauthenticated.'') 401 \<and>
   reply (DELETE no_faults (sample_request (Some ''U1'') (Inr (JObj [])) None) [link_L1]) =
     NextResponse_json (failure ''Link ID is required.'') 400 \<and>
   reply (PATCH no_faults (sample_request None (Inr (JObj [])) None) [link_L1]) =
     NextResponse_json (failure ''Unauthenticated.'') 401 \<and>
   reply (PATCH no_faults (sample_request (Some ''U1'') (Inr (JObj [])) None) [link_L1]) =
     NextResponse_json (failure ''URL is required.'') 400 \<and>
   reply (PATCH no_faults
      (sample_request (Some ''U1'') (Inr (JObj [(''url'', JStr ''https://example.com/new'')])) None)
      [link_L1]) =
     NextResponse_json (failure ''Keyword is required.'') 400 \<and>
   reply (PATCH no_faults
      (sample_request (Some ''U1'')
         (Inr (JObj [(''url'', JStr ''https://example.com/new''), (''keyword'', JStr ''new'')]))
         None)
      [link_L1]) =
     NextResponse_json (failure ''Title is required.'') 400 \<and>
   reply (PATCH no_faults (sample_request (Some ''U1'') (Inr (update_body ''new'')) None)
      [link_L1]) =
     NextResponse_json (failure ''Link ID is required.'') 400"
proof -
  let ?anon = "sample_request None (Inr (JObj [])) None"
  let ?empty = "sample_request (Some ''U1'') (Inr (JObj [])) None"
  let ?u = "sample_request (Some ''U1'') (Inr (JObj [(''url'', JStr ''https://example.com/new'')])) None"
  let ?uk = "sample_request (Some ''U1'')
         (Inr (JObj [(''url'', JStr ''https://example.com/new''), (''keyword'', JStr ''new'')]))
         None"
  let ?all = "sample_request (Some ''U1'') (Inr (update_body ''new'')) None"
  have f1: "body_fields ?anon = Inr (JUndefined, JUndefined, JUndefined)"
    and f2: "body_fields ?empty = Inr (JUndefined, JUndefined, JUndefined)"
    and f3: "body_fields ?u = Inr (JUndefined, JUndefined, JStr ''https://example.com/new'')"
    and f4: "body_fields ?uk = Inr (JUndefined, JStr ''new'', JStr ''https://example.com/new'')"
    and f5: "body_fields ?all =
      Inr (JStr ''New title'', JStr ''new'', JStr ''https://example.com/new'')"
    by (simp_all add: body_fields_def sample_defs)
  have who: "\<not> present (auth_userId ?anon)" "present (auth_userId ?empty)"
     "present (auth_userId ?u)" "present (auth_userId ?uk)" "present (auth_userId ?all)"
    and path: "\<not> present (params_linkId ?empty)" "\<not> present (params_linkId ?all)"
    by (simp_all add: sample_defs)
  show ?thesis
    using precondition_order [of ?anon no_faults "[link_L1]" JUndefined JUndefined JUndefined]
      precondition_order [of ?empty no_faults "[link_L1]" JUndefined JUndefined JUndefined]
      precondition_order [of ?u no_faults "[link_L1]" JUndefined JUndefined
        "JStr ''https://example.com/new''"]
      precondition_order [of ?uk no_faults "[link_L1]" JUndefined "JStr ''new''"
        "JStr ''https://example.com/new''"]
      precondition_order [of ?all no_faults "[link_L1]" "JStr ''New title''" "JStr ''new''"
        "JStr ''https://example.com/new''"]
      f1 f2 f3 f4 f5 who path
    by simp
qed

text \<open>
  C3. \<open>PATCH\<close> reads and destructures the body before it tests the identity: an
  unauthenticated caller whose body does not parse, or is \<open>null\<close>, is answered 500
  with the message of the error, not 401.
\<close>

theorem unauthenticated_update_unparsable_body:
  "reply (PATCH no_faults
      (sample_request None (Inl ''Unexpected end of JSON input'') (Some ''L1''))
      [link_L1, link_L2]) =
     NextResponse_json (failure ''Unexpected end of JSON input'') 500 \<and>
   reply (PATCH no_faults (sample_request None (Inr JNull) (Some ''L1''))
      [link_L1, link_L2]) =
     NextResponse_json (failure destructure_error) 500"
  by (simp add: run_defs sample_defs)

text \<open>
  C4. An update by the owner whose earlier preconditions pass and whose lookups raise no
  fault: when another link, one with a different identifier, holds the requested keyword,
  the answer is 400 "Please enter different keyword.", the table is unchanged and no
  mutating call is made; when the keyword is the link's own and keywords are unique in the
  table, there is no conflict and the update succeeds, answering 200 with the record
  carrying the new title and url.
\<close>

theorem keyword_conflict:
  assumes who: "auth_userId req = Some u" "u \<noteq> []"
    and path: "params_linkId req = Some lid" "lid \<noteq> []"
    and stored: "find (\<lambda>r. link_id r = lid) rows = Some l"
    and owner: "link_userId l = u"
    and body: "body_fields req = Inr (title, JStr k, url)" "truthy title" "k \<noteq> []" "truthy url"
    and lookups: "fl (FindUniqueId lid) = None" "fl (FindUniqueKeyword (JStr k) lid) = None"
  shows "((\<exists>r \<in> set rows. link_keyword r = k \<and> link_id r \<noteq> lid) \<longrightarrow>
            reply (PATCH fl req rows) =
              NextResponse_json (failure ''Please enter different keyword.'') 400 \<and>
            db (PATCH fl req rows) = rows \<and>
            filter is_mutation (calls (PATCH fl req rows)) = []) \<and>
         (\<forall>t ur. k = link_keyword l \<and> distinct (map link_keyword rows) \<and>
            title = JStr t \<and> url = JStr ur \<and>
            fl (LinkUpdate lid title (JStr k) url) = None \<longrightarrow>
            reply (PATCH fl req rows) =
              NextResponse_json (success (l\<lparr>link_title := t, link_url := ur\<rparr>)) 200 \<and>
            find (\<lambda>r. link_id r = lid) (db (PATCH fl req rows)) =
              Some (l\<lparr>link_title := t, link_url := ur\<rparr>))"
proof -
  have a: "(\<exists>r \<in> set rows. link_keyword r = k \<and> link_id r \<noteq> lid) \<longrightarrow>
            reply (PATCH fl req rows) =
              NextResponse_json (failure ''Please enter different keyword.'') 400 \<and>
            db (PATCH fl req rows) = rows \<and>
            filter is_mutation (calls (PATCH fl req rows)) = []"
  proof
    assume "\<exists>r \<in> set rows. link_keyword r = k \<and> link_id r \<noteq> lid"
    then obtain c where c: "find (\<lambda>r. link_keyword r = k \<and> link_id r \<noteq> lid) rows = Some c"
      using conflict_found by blast
    show "reply (PATCH fl req rows) =
              NextResponse_json (failure ''Please enter different keyword.'') 400 \<and>
            db (PATCH fl req rows) = rows \<and>
            filter is_mutation (calls (PATCH fl req rows)) = []"
      by (rule PATCH_cases
            [where P = "\<lambda>out. reply out =
                NextResponse_json (failure ''Please enter different keyword.'') 400 \<and>
              db out = rows \<and> filter is_mutation (calls out) = []"])
         (use assms c in \<open>auto simp add: reply_defs\<close>)
  qed
  have b: "reply (PATCH fl req rows) =
              NextResponse_json (success (l\<lparr>link_title := t, link_url := ur\<rparr>)) 200 \<and>
            find (\<lambda>r. link_id r = lid) (db (PATCH fl req rows)) =
              Some (l\<lparr>link_title := t, link_url := ur\<rparr>)"
    if own: "k = link_keyword l" and uniq: "distinct (map link_keyword rows)"
      and strs: "title = JStr t" "url = JStr ur"
      and nofault: "fl (LinkUpdate lid title (JStr k) url) = None" for t ur
  proof -
    have free: "find (\<lambda>r. link_keyword r = k \<and> link_id r \<noteq> lid) rows = None"
      using own_keyword_no_conflict [OF uniq stored] own by simp
    have same: "set_fields t k ur l = l\<lparr>link_title := t, link_url := ur\<rparr>"
      using own by (simp add: set_fields_def)
    have found: "find (\<lambda>r. link_id r = lid)
        (map (\<lambda>r. if link_id r = lid then set_fields t k ur r else r) rows) =
        Some (set_fields t k ur l)"
      using stored by (rule find_after_update_same)
    show ?thesis
      by (rule PATCH_cases
            [where P = "\<lambda>out. reply out =
                NextResponse_json (success (l\<lparr>link_title := t, link_url := ur\<rparr>)) 200 \<and>
              find (\<lambda>r. link_id r = lid) (db out) =
                Some (l\<lparr>link_title := t, link_url := ur\<rparr>)"])
         (use assms free same found that in \<open>auto simp add: reply_defs\<close>)
  qed
  from a b show ?thesis by blast
qed


theorem keyword_conflict_witness:
  "reply (PATCH no_faults
      (sample_request (Some ''U1'') (Inr (update_body ''two'')) (Some ''L1''))
      [link_L1, link_L2]) =
     NextResponse_json (failure ''Please enter different keyword.'') 400 \<and>
   db (PATCH no_faults
      (sample_request (Some ''U1'') (Inr (update_body ''two'')) (Some ''L1''))
      [link_L1, link_L2]) = [link_L1, link_L2] \<and>
   reply (PATCH no_faults
      (sample_request (Some ''U1'') (Inr (update_body ''old'')) (Some ''L1''))
      [link_L1, link_L2]) =
     NextResponse_json
       (success (link_L1\<lparr>link_title := ''New title'',
                         link_url := ''https://example.com/new''\<rparr>)) 200"
proof -
  let ?taken = "sample_request (Some ''U1'') (Inr (update_body ''two'')) (Some ''L1'')"
  let ?own = "sample_request (Some ''U1'') (Inr (update_body ''old'')) (Some ''L1'')"
  let ?rows = "[link_L1, link_L2]"
  let ?t = "JStr ''New title''"
  let ?u = "JStr ''https://example.com/new''"
  have ne: "''U1'' \<noteq> []" "''L1'' \<noteq> []" "''two'' \<noteq> []" "''old'' \<noteq> []"
    and tr: "truthy ?t" "truthy ?u"
    by simp_all
  have stored: "find (\<lambda>r. link_id r = ''L1'') ?rows = Some link_L1"
    and owner: "link_userId link_L1 = ''U1''"
    by (simp_all add: sample_defs)
  have taken: "auth_userId ?taken = Some ''U1''" "params_linkId ?taken = Some ''L1''"
      "body_fields ?taken = Inr (?t, JStr ''two'', ?u)"
    and own: "auth_userId ?own = Some ''U1''" "params_linkId ?own = Some ''L1''"
      "body_fields ?own = Inr (?t, JStr ''old'', ?u)"
    by (simp_all add: sample_defs body_fields_def)
  have quiet: "no_faults (FindUniqueId ''L1'') = None"
      "no_faults (FindUniqueKeyword (JStr ''two'') ''L1'') = None"
      "no_faults (FindUniqueKeyword (JStr ''old'') ''L1'') = None"
    by (simp_all add: no_faults_def)
  have holder: "\<exists>r \<in> set ?rows. link_keyword r = ''two'' \<and> link_id r \<noteq> ''L1''"
    by (simp add: sample_defs)
  have unchanged: "''old'' = link_keyword link_L1 \<and> distinct (map link_keyword ?rows) \<and>
      ?t = JStr ''New title'' \<and> ?u = JStr ''https://example.com/new'' \<and>
      no_faults (LinkUpdate ''L1'' ?t (JStr ''old'') ?u) = None"
    by (simp add: sample_defs)
  note first = keyword_conflict [OF taken(1) ne(1) taken(2) ne(2) stored owner taken(3)
      tr(1) ne(3) tr(2) quiet(1) quiet(2), THEN conjunct1, rule_format, OF holder]
  note second = keyword_conflict [OF own(1) ne(1) own(2) ne(2) stored owner own(3)
      tr(1) ne(4) tr(2) quiet(1) quiet(3), THEN conjunct2, rule_format, OF unchanged]
  show ?thesis
    using first [THEN conjunct1] first [THEN conjunct2, THEN conjunct1] second [THEN conjunct1]
    by (intro conjI)
qed

text \<open>
  C5. When every precondition passes and the store raises no fault, \<open>DELETE\<close> answers
  200 with the record as it was stored, the table no longer holds a record of that
  identifier and every other lookup is as before; \<open>PATCH\<close> answers 200 with the
  stored record in which exactly title, keyword and url are overwritten, a lookup of the
  identifier finds that record, every other lookup is as before, and the identifiers and
  owners of the table are unchanged.
\<close>

theorem success_effects:
  assumes who: "auth_userId req = Some u" "u \<noteq> []"
    and path: "params_linkId req = Some lid" "lid \<noteq> []"
    and stored: "find (\<lambda>r. link_id r = lid) rows = Some l"
    and owner: "link_userId l = u"
    and lookup: "fl (FindUniqueId lid) = None"
  shows "(fl (LinkDelete lid) = None \<longrightarrow>
            reply (DELETE fl req rows) = NextResponse_json (success l) 200 \<and>
            find (\<lambda>r. link_id r = lid) (db (DELETE fl req rows)) = None \<and>
            (\<forall>j. j \<noteq> lid \<longrightarrow>
               find (\<lambda>r. link_id r = j) (db (DELETE fl req rows)) =
               find (\<lambda>r. link_id r = j) rows)) \<and>
         (\<forall>t k ur.
            body_fields req = Inr (JStr t, JStr k, JStr ur) \<and> t \<noteq> [] \<and> k \<noteq> [] \<and> ur \<noteq> [] \<and>
            find (\<lambda>r. link_keyword r = k \<and> link_id r \<noteq> lid) rows = None \<and>
            fl (FindUniqueKeyword (JStr k) lid) = None \<and>
            fl (LinkUpdate lid (JStr t) (JStr k) (JStr ur)) = None \<longrightarrow>
            reply (PATCH fl req rows) =
              NextResponse_json
                (success (l\<lparr>link_title := t, link_keyword := k, link_url := ur\<rparr>)) 200 \<and>
            find (\<lambda>r. link_id r = lid) (db (PATCH fl req rows)) =
              Some (l\<lparr>link_title := t, link_keyword := k, link_url := ur\<rparr>) \<and>
            (\<forall>j. j \<noteq> lid \<longrightarrow>
               find (\<lambda>r. link_id r = j) (db (PATCH fl req rows)) =
               find (\<lambda>r. link_id r = j) rows) \<and>
            map link_id (db (PATCH fl req rows)) = map link_id rows \<and>
            map link_userId (db (PATCH fl req rows)) = map link_userId rows)"
proof -
  have del: "reply (DELETE fl req rows) = NextResponse_json (success l) 200 \<and>
            find (\<lambda>r. link_id r = lid) (db (DELETE fl req rows)) = None \<and>
            (\<forall>j. j \<noteq> lid \<longrightarrow>
               find (\<lambda>r. link_id r = j) (db (DELETE fl req rows)) =
               find (\<lambda>r. link_id r = j) rows)"
    if "fl (LinkDelete lid) = None"
    by (rule DELETE_cases
          [where P = "\<lambda>out. reply out = NextResponse_json (success l) 200 \<and>
            find (\<lambda>r. link_id r = lid) (db out) = None \<and>
            (\<forall>j. j \<noteq> lid \<longrightarrow>
               find (\<lambda>r. link_id r = j) (db out) = find (\<lambda>r. link_id r = j) rows)"])
       (use assms that in
         \<open>auto simp add: reply_defs find_after_delete_same find_after_delete_other\<close>)
  have upd: "reply (PATCH fl req rows) =
              NextResponse_json
                (success (l\<lparr>link_title := t, link_keyword := k, link_url := ur\<rparr>)) 200 \<and>
            find (\<lambda>r. link_id r = lid) (db (PATCH fl req rows)) =
              Some (l\<lparr>link_title := t, link_keyword := k, link_url := ur\<rparr>) \<and>
            (\<forall>j. j \<noteq> lid \<longrightarrow>
               find (\<lambda>r. link_id r = j) (db (PATCH fl req rows)) =
               find (\<lambda>r. link_id r = j) rows) \<and>
            map link_id (db (PATCH fl req rows)) = map link_id rows \<and>
            map link_userId (db (PATCH fl req rows)) = map link_userId rows"
    if body: "body_fields req = Inr (JStr t, JStr k, JStr ur)" "t \<noteq> []" "k \<noteq> []" "ur \<noteq> []"
      and free: "find (\<lambda>r. link_keyword r = k \<and> link_id r \<noteq> lid) rows = None"
      and nofault: "fl (FindUniqueKeyword (JStr k) lid) = None"
        "fl (LinkUpdate lid (JStr t) (JStr k) (JStr ur)) = None" for t k ur
  proof -
    have found: "find (\<lambda>r. link_id r = lid)
        (map (\<lambda>r. if link_id r = lid then set_fields t k ur r else r) rows) =
        Some (set_fields t k ur l)"
      using stored by (rule find_after_update_same)
    have "reply (PATCH fl req rows) = NextResponse_json (success (set_fields t k ur l)) 200 \<and>
        find (\<lambda>r. link_id r = lid) (db (PATCH fl req rows)) = Some (set_fields t k ur l) \<and>
        (\<forall>j. j \<noteq> lid \<longrightarrow>
           find (\<lambda>r. link_id r = j) (db (PATCH fl req rows)) =
           find (\<lambda>r. link_id r = j) rows) \<and>
        map link_id (db (PATCH fl req rows)) = map link_id rows \<and>
        map link_userId (db (PATCH fl req rows)) = map link_userId rows"
      by (rule PATCH_cases
            [where P = "\<lambda>out. reply out =
                NextResponse_json (success (set_fields t k ur l)) 200 \<and>
              find (\<lambda>r. link_id r = lid) (db out) = Some (set_fields t k ur l) \<and>
              (\<forall>j. j \<noteq> lid \<longrightarrow>
                 find (\<lambda>r. link_id r = j) (db out) = find (\<lambda>r. link_id r = j) rows) \<and>
              map link_id (db out) = map link_id rows \<and>
              map link_userId (db out) = map link_userId rows"])
         (use assms that found in
           \<open>auto simp add: reply_defs find_after_update_other update_keeps_ids
              update_keeps_owners simp del: map_map\<close>)
    then show ?thesis by (simp add: set_fields_def)
  qed
  from del upd show ?thesis by blast
qed


theorem success_effects_witness:
  "reply (DELETE no_faults
      (sample_request (Some ''U1'') (Inr (update_body ''new'')) (Some ''L1''))
      [link_L1, link_L2]) = NextResponse_json (success link_L1) 200 \<and>
   find (\<lambda>r. link_id r = ''L1'')
     (db (DELETE no_faults
       (sample_request (Some ''U1'') (Inr (update_body ''new'')) (Some ''L1''))
       [link_L1, link_L2])) = None \<and>
   reply (PATCH no_faults
      (sample_request (Some ''U1'') (Inr (update_body ''new'')) (Some ''L1''))
      [link_L1, link_L2]) =
     NextResponse_json
       (success (link_L1\<lparr>link_title := ''New title'', link_keyword := ''new'',
                         link_url := ''https://example.com/new''\<rparr>)) 200 \<and>
   find (\<lambda>r. link_id r = ''L1'')
     (db (PATCH no_faults
       (sample_request (Some ''U1'') (Inr (update_body ''new'')) (Some ''L1''))
       [link_L1, link_L2])) =
     Some (link_L1\<lparr>link_title := ''New title'', link_keyword := ''new'',
                   link_url := ''https://example.com/new''\<rparr>)"
proof -
  let ?req = "sample_request (Some ''U1'') (Inr (update_body ''new'')) (Some ''L1'')"
  let ?rows = "[link_L1, link_L2]"
  have ne: "''U1'' \<noteq> []" "''L1'' \<noteq> []"
    by simp_all
  have req: "auth_userId ?req = Some ''U1''" "params_linkId ?req = Some ''L1''"
    and stored: "find (\<lambda>r. link_id r = ''L1'') ?rows = Some link_L1"
    and owner: "link_userId link_L1 = ''U1''"
    and quiet: "no_faults (FindUniqueId ''L1'') = None" "no_faults (LinkDelete ''L1'') = None"
    by (simp_all add: sample_defs)
  have passes: "body_fields ?req =
        Inr (JStr ''New title'', JStr ''new'', JStr ''https://example.com/new'') \<and>
      ''New title'' \<noteq> [] \<and> ''new'' \<noteq> [] \<and> ''https://example.com/new'' \<noteq> [] \<and>
      find (\<lambda>r. link_keyword r = ''new'' \<and> link_id r \<noteq> ''L1'') ?rows = None \<and>
      no_faults (FindUniqueKeyword (JStr ''new'') ''L1'') = None \<and>
      no_faults (LinkUpdate ''L1'' (JStr ''New title'') (JStr ''new'')
        (JStr ''https://example.com/new'')) = None"
    by (simp add: sample_defs body_fields_def)
  note both = success_effects [where fl = no_faults, OF req(1) ne(1) req(2) ne(2) stored owner quiet(1)]
  note deleted = both [THEN conjunct1, rule_format, OF quiet(2)]
  note updated = both [THEN conjunct2, rule_format, OF passes]
  show ?thesis
    using deleted [THEN conjunct1] deleted [THEN conjunct2, THEN conjunct1]
      updated [THEN conjunct1] updated [THEN conjunct2, THEN conjunct1]
    by (intro conjI)
qed

text \<open>
  C6. A call answers 200 only when every precondition holds (identity, link identifier,
  for an update the three fields as strings, the link found, owned by the caller, and for
  an update no other link holding the keyword); it then made exactly one mutating call to
  the store, the update or the delete of the link named in the path, and the table
  afterwards is the table before with exactly that change: for a delete the rows of that
  identifier removed, for an update title, keyword and url overwritten on them, every
  other row as it was. When a precondition fails (no identity, a missing identifier or
  field, the link not found, the caller not its owner, another link holding the keyword)
  the answer is not 200, the table is exactly as it was and no mutating call was made.
  Whatever else happens (a fault of the store), an answer other than 200 leaves the table
  as it was.
\<close>

theorem one_mutation_or_none:
  "(status (reply (PATCH fl req rows)) = 200 \<longrightarrow>
     (\<exists>i l t k u. params_linkId req = Some i \<and> i \<noteq> [] \<and> present (auth_userId req) \<and>
        body_fields req = Inr (JStr t, JStr k, JStr u) \<and> t \<noteq> [] \<and> k \<noteq> [] \<and> u \<noteq> [] \<and>
        find (\<lambda>r. link_id r = i) rows = Some l \<and>
        auth_userId req = Some (link_userId l) \<and>
        find (\<lambda>r. link_keyword r = k \<and> link_id r \<noteq> i) rows = None \<and>
        fl (FindUniqueId i) = None \<and> fl (FindUniqueKeyword (JStr k) i) = None \<and>
        fl (LinkUpdate i (JStr t) (JStr k) (JStr u)) = None \<and>
        reply (PATCH fl req rows) =
          NextResponse_json
            (success (l\<lparr>link_title := t, link_keyword := k, link_url := u\<rparr>)) 200 \<and>
        calls (PATCH fl req rows) =
          [FindUniqueId i, FindUniqueKeyword (JStr k) i,
           LinkUpdate i (JStr t) (JStr k) (JStr u)] \<and>
        db (PATCH fl req rows) =
          map (\<lambda>r. if link_id r = i
                    then r\<lparr>link_title := t, link_keyword := k, link_url := u\<rparr> else r) rows)) \<and>
   (\<not> present (auth_userId req) \<or> \<not> fields_present req \<or> \<not> present (params_linkId req) \<or>
   (\<exists>i. params_linkId req = Some i \<and>
      (find (\<lambda>r. link_id r = i) rows = None \<or>
       (\<exists>l. find (\<lambda>r. link_id r = i) rows = Some l \<and>
            auth_userId req \<noteq> Some (link_userId l)) \<or>
       (\<exists>t k u. body_fields req = Inr (t, JStr k, u) \<and>
            (\<exists>r \<in> set rows. link_keyword r = k \<and> link_id r \<noteq> i)))) \<longrightarrow>
   status (reply (PATCH fl req rows)) \<noteq> 200 \<and> db (PATCH fl req rows) = rows \<and>
   filter is_mutation (calls (PATCH fl req rows)) = []) \<and>
   (status (reply (DELETE fl req rows)) = 200 \<longrightarrow>
     (\<exists>i l. params_linkId req = Some i \<and> i \<noteq> [] \<and> present (auth_userId req) \<and>
        find (\<lambda>r. link_id r = i) rows = Some l \<and>
        auth_userId req = Some (link_userId l) \<and>
        fl (FindUniqueId i) = None \<and> fl (LinkDelete i) = None \<and>
        reply (DELETE fl req rows) = NextResponse_json (success l) 200 \<and>
        calls (DELETE fl req rows) = [FindUniqueId i, LinkDelete i] \<and>
        db (DELETE fl req rows) = filter (\<lambda>r. link_id r \<noteq> i) rows)) \<and>
   (\<not> present (auth_userId req) \<or> \<not> present (params_linkId req) \<or>
   (\<exists>i. params_linkId req = Some i \<and>
      (find (\<lambda>r. link_id r = i) rows = None \<or>
       (\<exists>l. find (\<lambda>r. link_id r = i) rows = Some l \<and>
            auth_userId req \<noteq> Some (link_userId l)))) \<longrightarrow>
   status (reply (DELETE fl req rows)) \<noteq> 200 \<and> db (DELETE fl req rows) = rows \<and>
   filter is_mutation (calls (DELETE fl req rows)) = []) \<and>
   (status (reply (PATCH fl req rows)) = 200 \<longrightarrow>
      (\<exists>i t k u. params_linkId req = Some i \<and>
         filter is_mutation (calls (PATCH fl req rows)) = [LinkUpdate i t k u])) \<and>
   (status (reply (PATCH fl req rows)) \<noteq> 200 \<longrightarrow> db (PATCH fl req rows) = rows) \<and>
   (status (reply (PATCH fl req rows)) \<notin> {200, 500} \<longrightarrow>
      filter is_mutation (calls (PATCH fl req rows)) = []) \<and>
   (status (reply (DELETE fl req rows)) = 200 \<longrightarrow>
      (\<exists>i. params_linkId req = Some i \<and>
         filter is_mutation (calls (DELETE fl req rows)) = [LinkDelete i])) \<and>
   (status (reply (DELETE fl req rows)) \<noteq> 200 \<longrightarrow> db (DELETE fl req rows) = rows) \<and>
   (status (reply (DELETE fl req rows)) \<notin> {200, 500} \<longrightarrow>
      filter is_mutation (calls (DELETE fl req rows)) = [])"
  using PATCH_success_effect [of fl req rows] PATCH_precondition_frame [of req rows fl]
    DELETE_success_effect [of fl req rows] DELETE_precondition_frame [of req rows fl]
    PATCH_frame [of fl req rows] DELETE_frame [of fl req rows]
  by (intro conjI) blast+

theorem one_mutation_or_none_witness:
  "status (reply (PATCH no_faults
       (sample_request (Some ''U1'') (Inr (update_body ''new'')) (Some ''L1''))
       [link_L1, link_L2])) = 200 \<and>
   calls (PATCH no_faults
       (sample_request (Some ''U1'') (Inr (update_body ''new'')) (Some ''L1''))
       [link_L1, link_L2]) =
     [FindUniqueId ''L1'', FindUniqueKeyword (JStr ''new'') ''L1'',
      LinkUpdate ''L1'' (JStr ''New title'') (JStr ''new'') (JStr ''https://example.com/new'')] \<and>
   db (PATCH no_faults
       (sample_request (Some ''U1'') (Inr (update_body ''new'')) (Some ''L1''))
       [link_L1, link_L2]) =
     [link_L1\<lparr>link_title := ''New title'', link_keyword := ''new'',
              link_url := ''https://example.com/new''\<rparr>, link_L2] \<and>
   status (reply (DELETE no_faults
       (sample_request (Some ''U1'') (Inr (update_body ''new'')) (Some ''L1''))
       [link_L1, link_L2])) = 200 \<and>
   calls (DELETE no_faults
       (sample_request (Some ''U1'') (Inr (update_body ''new'')) (Some ''L1''))
       [link_L1, link_L2]) = [FindUniqueId ''L1'', LinkDelete ''L1''] \<and>
   db (DELETE no_faults
       (sample_request (Some ''U1'') (Inr (update_body ''new'')) (Some ''L1''))
       [link_L1, link_L2]) = [link_L2] \<and>
   status (reply (PATCH no_faults
       (sample_request (Some ''U2'') (Inr (update_body ''new'')) (Some ''L1''))
       [link_L1, link_L2])) \<noteq> 200 \<and>
   db (PATCH no_faults
       (sample_request (Some ''U2'') (Inr (update_body ''new'')) (Some ''L1''))
       [link_L1, link_L2]) = [link_L1, link_L2] \<and>
   filter is_mutation (calls (PATCH no_faults
       (sample_request (Some ''U2'') (Inr (update_body ''new'')) (Some ''L1''))
       [link_L1, link_L2])) = [] \<and>
   status (reply (DELETE no_faults
       (sample_request None (Inr (update_body ''new'')) (Some ''L1''))
       [link_L1, link_L2])) \<noteq> 200 \<and>
   db (DELETE no_faults
       (sample_request None (Inr (update_body ''new'')) (Some ''L1''))
       [link_L1, link_L2]) = [link_L1, link_L2] \<and>
   filter is_mutation (calls (DELETE no_faults
       (sample_request None (Inr (update_body ''new'')) (Some ''L1''))
       [link_L1, link_L2])) = []"
proof -
  let ?ok = "sample_request (Some ''U1'') (Inr (update_body ''new'')) (Some ''L1'')"
  let ?other = "sample_request (Some ''U2'') (Inr (update_body ''new'')) (Some ''L1'')"
  let ?anon = "sample_request None (Inr (update_body ''new'')) (Some ''L1'')"
  let ?rows = "[link_L1, link_L2]"
  note at_ok = one_mutation_or_none [of no_faults ?ok ?rows]
  note at_other = one_mutation_or_none [of no_faults ?other ?rows]
  note at_anon = one_mutation_or_none [of no_faults ?anon ?rows]
  have path: "params_linkId ?ok = Some ''L1''"
    and body: "body_fields ?ok =
      Inr (JStr ''New title'', JStr ''new'', JStr ''https://example.com/new'')"
    by (simp_all add: sample_defs body_fields_def)
  have p200: "status (reply (PATCH no_faults ?ok ?rows)) = 200"
    and d200: "status (reply (DELETE no_faults ?ok ?rows)) = 200"
    by (simp_all add: run_defs sample_defs)
  from at_ok p200 obtain i l t k u where
      "params_linkId ?ok = Some i" "body_fields ?ok = Inr (JStr t, JStr k, JStr u)"
      "calls (PATCH no_faults ?ok ?rows) =
        [FindUniqueId i, FindUniqueKeyword (JStr k) i,
         LinkUpdate i (JStr t) (JStr k) (JStr u)]"
      "db (PATCH no_faults ?ok ?rows) =
        map (\<lambda>r. if link_id r = i
                  then r\<lparr>link_title := t, link_keyword := k, link_url := u\<rparr> else r) ?rows"
    by blast
  with path body have updated:
      "calls (PATCH no_faults ?ok ?rows) =
        [FindUniqueId ''L1'', FindUniqueKeyword (JStr ''new'') ''L1'',
         LinkUpdate ''L1'' (JStr ''New title'') (JStr ''new'')
           (JStr ''https://example.com/new'')]"
      "db (PATCH no_faults ?ok ?rows) =
        [link_L1\<lparr>link_title := ''New title'', link_keyword := ''new'',
                 link_url := ''https://example.com/new''\<rparr>, link_L2]"
    by (simp_all add: link_L1_def link_L2_def)
  from at_ok d200 obtain j l' where
      "params_linkId ?ok = Some j"
      "calls (DELETE no_faults ?ok ?rows) = [FindUniqueId j, LinkDelete j]"
      "db (DELETE no_faults ?ok ?rows) = filter (\<lambda>r. link_id r \<noteq> j) ?rows"
    by blast
  with path have deleted:
      "calls (DELETE no_faults ?ok ?rows) = [FindUniqueId ''L1'', LinkDelete ''L1'']"
      "db (DELETE no_faults ?ok ?rows) = [link_L2]"
    by (simp_all add: link_L1_def link_L2_def)
  have not_owner: "\<exists>i. params_linkId ?other = Some i \<and>
      (find (\<lambda>r. link_id r = i) ?rows = None \<or>
       (\<exists>l. find (\<lambda>r. link_id r = i) ?rows = Some l \<and>
            auth_userId ?other \<noteq> Some (link_userId l)) \<or>
       (\<exists>t k u. body_fields ?other = Inr (t, JStr k, u) \<and>
            (\<exists>r \<in> set ?rows. link_keyword r = k \<and> link_id r \<noteq> i)))"
    by (simp add: sample_defs)
  from at_other not_owner have refused:
      "status (reply (PATCH no_faults ?other ?rows)) \<noteq> 200 \<and>
       db (PATCH no_faults ?other ?rows) = ?rows \<and>
       filter is_mutation (calls (PATCH no_faults ?other ?rows)) = []"
    by blast
  have nobody: "\<not> present (auth_userId ?anon)"
    by (simp add: sample_defs)
  from at_anon nobody have anonymous:
      "status (reply (DELETE no_faults ?anon ?rows)) \<noteq> 200 \<and>
       db (DELETE no_faults ?anon ?rows) = ?rows \<and>
       filter is_mutation (calls (DELETE no_faults ?anon ?rows)) = []"
    by blast
  from p200 updated d200 deleted refused anonymous show ?thesis
    by (intro conjI) blast+
qed

text \<open>
  C7. Every reply of \<open>PATCH\<close> and \<open>DELETE\<close> is either status 200 with
  \<open>{success: true, link}\<close> or one of 400, 401, 403, 404, 500 with
  \<open>{success: false, error}\<close>; a store call that raises a fault, and a body that
  cannot be read, are answered with 500 carrying the message of the error. The handlers
  are total functions: there is no input on which they return no reply.
\<close>

theorem structured_replies:
  "((\<exists>l. reply (PATCH fl req rows) = NextResponse_json (success l) 200) \<or>
    (\<exists>m. json (reply (PATCH fl req rows)) = failure m \<and>
         status (reply (PATCH fl req rows)) \<in> {400, 401, 403, 404, 500})) \<and>
   ((\<exists>l. reply (DELETE fl req rows) = NextResponse_json (success l) 200) \<or>
    (\<exists>m. json (reply (DELETE fl req rows)) = failure m \<and>
         status (reply (DELETE fl req rows)) \<in> {400, 401, 403, 404, 500})) \<and>
   (\<forall>c m. c \<in> set (calls (PATCH fl req rows)) \<and> fl c = Some m \<longrightarrow>
      reply (PATCH fl req rows) = NextResponse_json (failure m) 500) \<and>
   (\<forall>c m. c \<in> set (calls (DELETE fl req rows)) \<and> fl c = Some m \<longrightarrow>
      reply (DELETE fl req rows) = NextResponse_json (failure m) 500) \<and>
   (\<forall>m. body_fields req = Inl m \<longrightarrow>
      reply (PATCH fl req rows) = NextResponse_json (failure m) 500)"
proof -
  have thrown: "\<forall>m. body_fields req = Inl m \<longrightarrow>
      reply (PATCH fl req rows) = NextResponse_json (failure m) 500"
    by (simp add: PATCH_def reply_defs)
  show ?thesis
    using PATCH_shape [of fl req rows] DELETE_shape [of fl req rows]
      PATCH_fault [of fl req rows] DELETE_fault [of fl req rows] thrown
    by (intro conjI)
qed

theorem structured_replies_witness:
  "reply (DELETE (fault_on (FindUniqueId ''L1'') ''Connection lost'')
      (sample_request (Some ''U1'') (Inr (update_body ''new'')) (Some ''L1''))
      [link_L1, link_L2]) = NextResponse_json (failure ''Connection lost'') 500 \<and>
   reply (PATCH (fault_on (FindUniqueKeyword (JStr ''new'') ''L1'') ''Connection lost'')
      (sample_request (Some ''U1'') (Inr (update_body ''new'')) (Some ''L1''))
      [link_L1, link_L2]) = NextResponse_json (failure ''Connection lost'') 500 \<and>
   reply (PATCH no_faults
      (sample_request (Some ''U1'') (Inl ''Unexpected token'') (Some ''L1''))
      [link_L1, link_L2]) = NextResponse_json (failure ''Unexpected token'') 500"
proof -
  let ?req = "sample_request (Some ''U1'') (Inr (update_body ''new'')) (Some ''L1'')"
  let ?bad = "sample_request (Some ''U1'') (Inl ''Unexpected token'') (Some ''L1'')"
  let ?rows = "[link_L1, link_L2]"
  let ?f1 = "fault_on (FindUniqueId ''L1'') ''Connection lost''"
  let ?f2 = "fault_on (FindUniqueKeyword (JStr ''new'') ''L1'') ''Connection lost''"
  have d: "FindUniqueId ''L1'' \<in> set (calls (DELETE ?f1 ?req ?rows)) \<and>
      ?f1 (FindUniqueId ''L1'') = Some ''Connection lost''"
    by (simp add: run_defs sample_defs)
  have p: "FindUniqueKeyword (JStr ''new'') ''L1'' \<in> set (calls (PATCH ?f2 ?req ?rows)) \<and>
      ?f2 (FindUniqueKeyword (JStr ''new'') ''L1'') = Some ''Connection lost''"
    by (simp add: run_defs sample_defs)
  have b: "body_fields ?bad = Inl ''Unexpected token''"
    by (simp add: body_fields_def sample_defs)
  note del = structured_replies [of ?f1 ?req ?rows, THEN conjunct2, THEN conjunct2,
      THEN conjunct2, THEN conjunct1, rule_format, OF d]
  note upd = structured_replies [of ?f2 ?req ?rows, THEN conjunct2, THEN conjunct2,
      THEN conjunct1, rule_format, OF p]
  note bad = structured_replies [of no_faults ?bad ?rows, THEN conjunct2, THEN conjunct2,
      THEN conjunct2, THEN conjunct2, rule_format, OF b]
  show ?thesis
    using del upd bad by (intro conjI)
qed

text \<open>
  C8. On submit the dialog asks the title proxy once for the encoded address, with a
  timeout of 2000 ms, and then sends the creation request to \<open>/api/link\<close> with the
  submitted values as payload and the title in the header \<open>long-url-title\<close>, apart
  from the payload. The title is the submitted URL whenever the lookup fails: the address
  cannot be encoded (then no request is made), the request is rejected (a timeout, a
  network error), the answer carries no string of contents, or the contents hold no
  opening and closing title tag with a single line between them. When the contents hold
  such a pair, first of their kind, the title is the encoded text between them (the URL
  again when that text is empty or cannot be encoded). What the user sees is decided by
  the answer to the creation request alone: a failed lookup shows nothing, an accepted
  creation shows the success effects only, and a refused one shows the field error of the
  keyword or the failure notice.
\<close>

theorem title_fallback:
  "post_path (posted (onSubmit b values)) = ''/api/link'' \<and>
   post_data (posted (onSubmit b values)) = values \<and>
   (\<exists>title. post_headers (posted (onSubmit b values)) = [(''long-url-title'', title)]) \<and>
   effects (onSubmit b values) =
     SetLoading True # after_post (axios_post b (posted (onSubmit b values))) @
     [SetLoading False] \<and>
   (\<forall>data. axios_post b (posted (onSubmit b values)) = Inr data \<and>
      truthy (get_prop data ''success'') \<longrightarrow>
      effects (onSubmit b values) =
        [SetLoading True, FormReset, ModalClose,
         RouterPush ''/admin/url?page=1&per_page=10'', RouterRefresh,
         Toast ''success'' ''Success!'' (JStr ''Short URL has been created.''),
         SetLoading False]) \<and>
   (\<forall>e. encodeURIComponent b (values_url values) = Inl e \<longrightarrow>
      lookups (onSubmit b values) = [] \<and>
      post_headers (posted (onSubmit b values)) =
        [(''long-url-title'', values_url values)]) \<and>
   (\<forall>q. encodeURIComponent b (values_url values) = Inr q \<longrightarrow>
      lookups (onSubmit b values) =
        [\<lparr>get_url = ''https://api.allorigins.win/get?url='' @ q, get_timeout = 2000\<rparr>] \<and>
      (\<forall>e. axios_get b
              \<lparr>get_url = ''https://api.allorigins.win/get?url='' @ q, get_timeout = 2000\<rparr> =
            Inl e \<longrightarrow>
         post_headers (posted (onSubmit b values)) =
           [(''long-url-title'', values_url values)]) \<and>
      (\<forall>data. axios_get b
              \<lparr>get_url = ''https://api.allorigins.win/get?url='' @ q, get_timeout = 2000\<rparr> =
            Inr data \<longrightarrow>
         ((\<forall>c. get_prop data ''contents'' \<noteq> JStr c) \<longrightarrow>
            post_headers (posted (onSubmit b values)) =
              [(''long-url-title'', values_url values)]) \<and>
         (\<forall>c. get_prop data ''contents'' = JStr c \<longrightarrow>
            ((\<forall>before m rest. c = before @ ''<title>'' @ m @ ''</title>'' @ rest \<longrightarrow>
                (\<exists>x \<in> set m. line_terminator x)) \<longrightarrow>
               post_headers (posted (onSubmit b values)) =
                 [(''long-url-title'', values_url values)]) \<and>
            (\<forall>before m rest.
               c = before @ ''<title>'' @ m @ ''</title>'' @ rest \<and>
               tag_first ''<title>'' before \<and> tag_first ''</title>'' m \<and>
               (\<forall>x \<in> set m. \<not> line_terminator x) \<longrightarrow>
               post_headers (posted (onSubmit b values)) =
                 [(''long-url-title'',
                   if m = [] then values_url values
                   else (case encodeURI b m of
                           Inl e \<Rightarrow> values_url values
                         | Inr t \<Rightarrow> t))])))) \<and>
   (\<forall>data. axios_post b (posted (onSubmit b values)) = Inr data \<and>
      data \<noteq> JNull \<and> data \<noteq> JUndefined \<and> \<not> truthy (get_prop data ''success'') \<longrightarrow>
      effects (onSubmit b values) = [SetLoading True, SetLoading False]) \<and>
   (\<forall>data. axios_post b (posted (onSubmit b values)) = Inr data \<and>
      (data = JNull \<or> data = JUndefined) \<longrightarrow>
      effects (onSubmit b values) =
        [SetLoading True,
         Toast ''destructive'' ''Uh oh! Something went wrong.''
           (JStr ''There was a problem with your request.''),
         SetLoading False]) \<and>
   (\<forall>message. axios_post b (posted (onSubmit b values)) = Inl message \<longrightarrow>
      effects (onSubmit b values) =
        [SetLoading True,
         if message = JStr ''Please enter different keyword.''
         then SetError Keyword ''Please enter different keyword.''
         else Toast ''destructive'' ''Uh oh! Something went wrong.''
           (if truthy message then message
            else JStr ''There was a problem with your request.''),
         SetLoading False])"
proof -
  note look = lookup_title_cases [of b "values_url values"]
  have none: "match_title c = None"
    if "\<forall>before m rest. c = before @ ''<title>'' @ m @ ''</title>'' @ rest \<longrightarrow>
          (\<exists>x \<in> set m. line_terminator x)" for c
    using that by (simp only: match_title_None_iff)
  have found: "match_title c = Some m"
    if "c = before @ ''<title>'' @ m @ ''</title>'' @ rest"
      "tag_first ''<title>'' before" "tag_first ''</title>'' m"
      "\<forall>x \<in> set m. \<not> line_terminator x" for c before m rest
    using that match_title_first by blast
  have accepted: "effects (onSubmit b values) =
        [SetLoading True, FormReset, ModalClose,
         RouterPush ''/admin/url?page=1&per_page=10'', RouterRefresh,
         Toast ''success'' ''Success!'' (JStr ''Short URL has been created.''),
         SetLoading False]"
    if "axios_post b (posted (onSubmit b values)) = Inr data"
      "truthy (get_prop data ''success'')" for data
    using that by (simp add: onSubmit_parts(3) after_post_accepted)
  have thrown: "lookups (onSubmit b values) = [] \<and>
      post_headers (posted (onSubmit b values)) = [(''long-url-title'', values_url values)]"
    if "encodeURIComponent b (values_url values) = Inl e" for e
    using that look by (simp add: onSubmit_parts)
  have asked: "lookups (onSubmit b values) =
        [\<lparr>get_url = ''https://api.allorigins.win/get?url='' @ q, get_timeout = 2000\<rparr>]"
    if "encodeURIComponent b (values_url values) = Inr q" for q
    using that look by (simp add: onSubmit_parts)
  have rejected: "post_headers (posted (onSubmit b values)) =
           [(''long-url-title'', values_url values)]"
    if "encodeURIComponent b (values_url values) = Inr q"
      "axios_get b
         \<lparr>get_url = ''https://api.allorigins.win/get?url='' @ q, get_timeout = 2000\<rparr> = Inl e"
    for q e
    using that look by (simp add: onSubmit_parts)
  have no_string: "post_headers (posted (onSubmit b values)) =
           [(''long-url-title'', values_url values)]"
    if "encodeURIComponent b (values_url values) = Inr q"
      "axios_get b
         \<lparr>get_url = ''https://api.allorigins.win/get?url='' @ q, get_timeout = 2000\<rparr> =
       Inr data"
      "\<forall>c. get_prop data ''contents'' \<noteq> JStr c"
    for q data
    using that look by (simp add: onSubmit_parts)
  have string: "post_headers (posted (onSubmit b values)) =
           [(''long-url-title'',
             case match_title c of
               None \<Rightarrow> values_url values
             | Some m \<Rightarrow>
                 if m = [] then values_url values
                 else (case encodeURI b m of Inl e \<Rightarrow> values_url values | Inr t \<Rightarrow> t))]"
    if "encodeURIComponent b (values_url values) = Inr q"
      "axios_get b
         \<lparr>get_url = ''https://api.allorigins.win/get?url='' @ q, get_timeout = 2000\<rparr> =
       Inr data"
      "get_prop data ''contents'' = JStr c"
    for q data c
    using that look by (simp add: onSubmit_parts)
  have quiet: "effects (onSubmit b values) = [SetLoading True, SetLoading False]"
    if "axios_post b (posted (onSubmit b values)) = Inr data"
      "data \<noteq> JNull" "data \<noteq> JUndefined" "\<not> truthy (get_prop data ''success'')" for data
    using that by (cases data) (simp_all add: onSubmit_parts(3))
  have empty: "effects (onSubmit b values) =
        [SetLoading True,
         Toast ''destructive'' ''Uh oh! Something went wrong.''
           (JStr ''There was a problem with your request.''),
         SetLoading False]"
    if "axios_post b (posted (onSubmit b values)) = Inr data"
      "data = JNull \<or> data = JUndefined" for data
    using that by (auto simp add: onSubmit_parts(3) on_error_def)
  have refused: "effects (onSubmit b values) =
        [SetLoading True,
         if message = JStr ''Please enter different keyword.''
         then SetError Keyword ''Please enter different keyword.''
         else Toast ''destructive'' ''Uh oh! Something went wrong.''
           (if truthy message then message
            else JStr ''There was a problem with your request.''),
         SetLoading False]"
    if "axios_post b (posted (onSubmit b values)) = Inl message" for message
    using that by (simp add: onSubmit_parts(3) on_error_def)
  show ?thesis
  proof (intro conjI allI impI; (elim conjE)?)
    show "post_path (posted (onSubmit b values)) = ''/api/link''"
      and "post_data (posted (onSubmit b values)) = values"
      and "\<exists>title. post_headers (posted (onSubmit b values)) = [(''long-url-title'', title)]"
      and "effects (onSubmit b values) =
        SetLoading True # after_post (axios_post b (posted (onSubmit b values))) @
        [SetLoading False]"
      by (simp_all add: onSubmit_parts)
  qed (simp_all add: accepted thrown asked rejected no_string string none found quiet empty
      refused)
qed

theorem title_fallback_witness:
  "lookups (onSubmit
      (sample_browser (Inl ''timeout of 2000ms exceeded'') (Inr (JObj [(''success'', JBool True)])))
      \<lparr>values_url = ''https://example.com/page'', values_keyword = ''page''\<rparr>) =
     [\<lparr>get_url = ''https://api.allorigins.win/get?url=https://example.com/page'',
       get_timeout = 2000\<rparr>] \<and>
   post_headers (posted (onSubmit
      (sample_browser (Inl ''timeout of 2000ms exceeded'') (Inr (JObj [(''success'', JBool True)])))
      \<lparr>values_url = ''https://example.com/page'', values_keyword = ''page''\<rparr>)) =
     [(''long-url-title'', ''https://example.com/page'')] \<and>
   effects (onSubmit
      (sample_browser (Inl ''timeout of 2000ms exceeded'') (Inr (JObj [(''success'', JBool True)])))
      \<lparr>values_url = ''https://example.com/page'', values_keyword = ''page''\<rparr>) =
     [SetLoading True, FormReset, ModalClose,
      RouterPush ''/admin/url?page=1&per_page=10'', RouterRefresh,
      Toast ''success'' ''Success!'' (JStr ''Short URL has been created.''),
      SetLoading False] \<and>
   post_headers (posted (onSubmit
      (sample_browser (Inr (JObj [(''contents'', JStr ''<html><h1>Page</h1></html>'')]))
         (Inr (JObj [(''success'', JBool True)])))
      \<lparr>values_url = ''https://example.com/page'', values_keyword = ''page''\<rparr>)) =
     [(''long-url-title'', ''https://example.com/page'')] \<and>
   post_headers (posted (onSubmit
      (sample_browser
         (Inr (JObj [(''contents'',
            JStr ''<html><head><title>Example Page</title></head></html>'')]))
         (Inr (JObj [(''success'', JBool True)])))
      \<lparr>values_url = ''https://example.com/page'', values_keyword = ''page''\<rparr>)) =
     [(''long-url-title'', ''Example Page'')]"
proof -
  let ?v = "\<lparr>values_url = ''https://example.com/page'', values_keyword = ''page''\<rparr>"
  let ?yes = "Inr (JObj [(''success'', JBool True)]) :: jsval + jsval"
  let ?late = "sample_browser (Inl ''timeout of 2000ms exceeded'') ?yes"
  let ?plain_data = "JObj [(''contents'', JStr ''<html><h1>Page</h1></html>'')]"
  let ?plain = "sample_browser (Inr ?plain_data) ?yes"
  let ?found_data =
    "JObj [(''contents'', JStr ''<html><head><title>Example Page</title></head></html>'')]"
  let ?found = "sample_browser (Inr ?found_data) ?yes"
  let ?q = "''https://example.com/page''"
  let ?get = "\<lparr>get_url = ''https://api.allorigins.win/get?url='' @ ?q, get_timeout = 2000\<rparr>"

  have enc: "encodeURIComponent ?late (values_url ?v) = Inr ?q"
      "encodeURIComponent ?plain (values_url ?v) = Inr ?q"
      "encodeURIComponent ?found (values_url ?v) = Inr ?q"
    by (simp_all add: sample_browser_def)
  have got: "axios_get ?late ?get = Inl ''timeout of 2000ms exceeded''"
      "axios_get ?plain ?get = Inr ?plain_data"
      "axios_get ?found ?get = Inr ?found_data"
    by (simp_all add: sample_browser_def)
  have contents: "get_prop ?plain_data ''contents'' = JStr ''<html><h1>Page</h1></html>''"
      "get_prop ?found_data ''contents'' =
        JStr ''<html><head><title>Example Page</title></head></html>''"
    by simp_all

  note late = title_fallback [of ?late ?v]
  note late_asked = late [THEN conjunct2, THEN conjunct2, THEN conjunct2, THEN conjunct2,
      THEN conjunct2, THEN conjunct2, THEN conjunct1, rule_format, OF enc(1)]
  have 1: "lookups (onSubmit ?late ?v) = [?get]"
    by (rule late_asked [THEN conjunct1])
  have 2: "post_headers (posted (onSubmit ?late ?v)) = [(''long-url-title'', values_url ?v)]"
    by (rule late_asked [THEN conjunct2, THEN conjunct1, rule_format, OF got(1)])
  have answered: "axios_post ?late (posted (onSubmit ?late ?v)) =
        Inr (JObj [(''success'', JBool True)]) \<and>
      truthy (get_prop (JObj [(''success'', JBool True)]) ''success'')"
    by (simp add: sample_browser_def)
  have 3: "effects (onSubmit ?late ?v) =
     [SetLoading True, FormReset, ModalClose,
      RouterPush ''/admin/url?page=1&per_page=10'', RouterRefresh,
      Toast ''success'' ''Success!'' (JStr ''Short URL has been created.''),
      SetLoading False]"
    by (rule late [THEN conjunct2, THEN conjunct2, THEN conjunct2, THEN conjunct2,
      THEN conjunct1, rule_format, OF answered])

  have "match_title ''<html><h1>Page</h1></html>'' = None"
    by simp
  then have nomatch: "\<forall>before m rest.
      ''<html><h1>Page</h1></html>'' = before @ ''<title>'' @ m @ ''</title>'' @ rest \<longrightarrow>
      (\<exists>x \<in> set m. line_terminator x)"
    by (simp only: match_title_None_iff)
  note plain = title_fallback [of ?plain ?v, THEN conjunct2, THEN conjunct2, THEN conjunct2,
      THEN conjunct2, THEN conjunct2, THEN conjunct2, THEN conjunct1, rule_format, OF enc(2),
      THEN conjunct2, THEN conjunct2, rule_format, OF got(2),
      THEN conjunct2, rule_format, OF contents(1)]
  have 4: "post_headers (posted (onSubmit ?plain ?v)) = [(''long-url-title'', values_url ?v)]"
    by (rule plain [THEN conjunct1, THEN mp, OF nomatch])

  have shape: "''<html><head><title>Example Page</title></head></html>'' =
      ''<html><head>'' @ ''<title>'' @ ''Example Page'' @ ''</title>'' @ ''</head></html>'' \<and>
      tag_first ''<title>'' ''<html><head>'' \<and> tag_first ''</title>'' ''Example Page'' \<and>
      (\<forall>x \<in> set ''Example Page''. \<not> line_terminator x)"
    by (simp add: tag_first_def starts_with_def line_terminator_def upt_rec)
  note found = title_fallback [of ?found ?v, THEN conjunct2, THEN conjunct2, THEN conjunct2,
      THEN conjunct2, THEN conjunct2, THEN conjunct2, THEN conjunct1, rule_format, OF enc(3),
      THEN conjunct2, THEN conjunct2, rule_format, OF got(3),
      THEN conjunct2, rule_format, OF contents(2)]
  have "post_headers (posted (onSubmit ?found ?v)) =
      [(''long-url-title'',
        if ''Example Page'' = [] then values_url ?v
        else (case encodeURI ?found ''Example Page'' of
                Inl e \<Rightarrow> values_url ?v
              | Inr t \<Rightarrow> t))]"
    by (rule found [THEN conjunct2, rule_format, OF shape])
  then have 5: "post_headers (posted (onSubmit ?found ?v)) =
      [(''long-url-title'', ''Example Page'')]"
    by (simp add: sample_browser_def)
  from 1 2 3 4 5 show ?thesis by simp
qed

text \<open>
  C9. The dialog hands a submission to \<open>onSubmit\<close> exactly when, after lower-casing,
  the url is accepted by the URL parser and the keyword has two or more characters, all
  of them lowercase letters, digits, hyphens or underscores; \<open>onSubmit\<close> then receives
  the lower-cased values. Any other input is rejected without a request: the url field
  carries "Please enter a valid URL." when the url is at fault, and the keyword field
  carries the message of the length rule, or else of the character rule, when the keyword
  is at fault.
\<close>

theorem form_validation:
  "(is_url (toLowerCase (values_url raw)) \<and>
    spec_keyword_ok (toLowerCase (values_keyword raw)) \<longrightarrow>
      handleSubmit is_url b raw =
      Submitted (onSubmit b \<lparr>values_url = toLowerCase (values_url raw),
                              values_keyword = toLowerCase (values_keyword raw)\<rparr>)) \<and>
   (\<not> (is_url (toLowerCase (values_url raw)) \<and>
       spec_keyword_ok (toLowerCase (values_keyword raw))) \<longrightarrow>
      (\<exists>errs. handleSubmit is_url b raw = Rejected errs \<and>
         errs Url =
           (if is_url (toLowerCase (values_url raw)) then None
            else Some ''Please enter a valid URL.'') \<and>
         errs Keyword =
           (if length (toLowerCase (values_keyword raw)) < 2
            then Some ''Please enter 2 or more characters.''
            else if set (toLowerCase (values_keyword raw)) \<subseteq> set slug_alphabet then None
            else Some ''Only letters, numbers, hyphens (-) and underscores (_) are allowed.'')))"
proof -
  let ?U = "toLowerCase (values_url raw)"
  let ?K = "toLowerCase (values_keyword raw)"
  have re: "regex_slug_test ?K \<longleftrightarrow> ?K \<noteq> [] \<and> set ?K \<subseteq> set slug_alphabet"
    by (auto simp add: regex_slug_test_iff slug_class_iff)
  show ?thesis
    by (auto simp add: handleSubmit_def formSchema_def Let_def url_issues_def
          keyword_issues_def re spec_keyword_ok_def)
qed


theorem form_validation_witness:
  "handleSubmit starts_https
      (sample_browser (Inl ''timeout of 2000ms exceeded'') (Inr (JObj [(''success'', JBool True)])))
      \<lparr>values_url = ''HTTPS://Example.com/Page'', values_keyword = ''My_Link-1''\<rparr> =
    Submitted (onSubmit
      (sample_browser (Inl ''timeout of 2000ms exceeded'') (Inr (JObj [(''success'', JBool True)])))
      \<lparr>values_url = ''https://example.com/page'', values_keyword = ''my_link-1''\<rparr>) \<and>
   (\<exists>errs. handleSubmit starts_https
      (sample_browser (Inl ''timeout of 2000ms exceeded'') (Inr (JObj [(''success'', JBool True)])))
      \<lparr>values_url = ''Example'', values_keyword = ''a b''\<rparr> = Rejected errs \<and>
      errs Url = Some ''Please enter a valid URL.'' \<and>
      errs Keyword =
        Some ''Only letters, numbers, hyphens (-) and underscores (_) are allowed.'')"
proof -
  let ?b = "sample_browser (Inl ''timeout of 2000ms exceeded'')
    (Inr (JObj [(''success'', JBool True)]))"
  let ?good = "\<lparr>values_url = ''HTTPS://Example.com/Page'', values_keyword = ''My_Link-1''\<rparr>"
  let ?bad = "\<lparr>values_url = ''Example'', values_keyword = ''a b''\<rparr>"
  have lower: "toLowerCase ''HTTPS://Example.com/Page'' = ''https://example.com/page''"
      "toLowerCase ''My_Link-1'' = ''my_link-1''"
      "toLowerCase ''Example'' = ''example''"
      "toLowerCase ''a b'' = ''a b''"
    by code_simp+
  have good: "starts_https (toLowerCase (values_url ?good)) \<and>
      spec_keyword_ok (toLowerCase (values_keyword ?good))"
    by (simp add: lower starts_https_def spec_keyword_ok_def slug_alphabet_def)
  have bad: "\<not> (starts_https (toLowerCase (values_url ?bad)) \<and>
      spec_keyword_ok (toLowerCase (values_keyword ?bad)))"
    by (simp add: lower starts_https_def)
  have bad_url: "\<not> starts_https (toLowerCase (values_url ?bad))"
    and bad_keyword: "\<not> length (toLowerCase (values_keyword ?bad)) < 2"
      "\<not> set (toLowerCase (values_keyword ?bad)) \<subseteq> set slug_alphabet"
    by (simp_all add: lower starts_https_def slug_alphabet_def)
  note accepted = form_validation [of starts_https ?good ?b, THEN conjunct1, rule_format, OF good]
  note rejected = form_validation [of starts_https ?bad ?b, THEN conjunct2, rule_format, OF bad]
  from accepted have 1: "handleSubmit starts_https ?b ?good =
      Submitted (onSubmit ?b
        \<lparr>values_url = ''https://example.com/page'', values_keyword = ''my_link-1''\<rparr>)"
    by (simp add: lower)
  from rejected bad_url bad_keyword have 2: "\<exists>errs. handleSubmit starts_https ?b ?bad = Rejected errs \<and>
      errs Url = Some ''Please enter a valid URL.'' \<and>
      errs Keyword =
        Some ''Only letters, numbers, hyphens (-) and underscores (_) are allowed.''"
    by (simp only: if_False)
  from 1 2 show ?thesis by (intro conjI)
qed

text \<open>
  C10. \<open>DELETE\<close> never reads the body: two delete requests with the same identity and
  the same link identifier have the same outcome (response, table and store calls) on the
  same table, whatever their bodies.
\<close>

theorem DELETE_ignores_body:
  assumes who: "auth_userId r1 = auth_userId r2"
    and path: "params_linkId r1 = params_linkId r2"
  shows "DELETE fl r1 rows = DELETE fl r2 rows"
  unfolding DELETE_def who path ..

theorem DELETE_ignores_body_witness:
  "DELETE no_faults (sample_request (Some ''U1'') (Inl ''Unexpected end of JSON input'') (Some ''L1''))
     [link_L1, link_L2] =
   DELETE no_faults (sample_request (Some ''U1'') (Inr (update_body ''new'')) (Some ''L1''))
     [link_L1, link_L2] \<and>
   reply (DELETE no_faults
     (sample_request (Some ''U1'') (Inl ''Unexpected end of JSON input'') (Some ''L1''))
     [link_L1, link_L2]) = NextResponse_json (success link_L1) 200"
proof -
  let ?a = "sample_request (Some ''U1'') (Inl ''Unexpected end of JSON input'') (Some ''L1'')"
  let ?b = "sample_request (Some ''U1'') (Inr (update_body ''new'')) (Some ''L1'')"
  have "auth_userId ?a = auth_userId ?b" and "params_linkId ?a = params_linkId ?b"
    by (simp_all add: sample_request_def)
  then have "DELETE no_faults ?a [link_L1, link_L2] = DELETE no_faults ?b [link_L1, link_L2]"
    by (rule DELETE_ignores_body)
  moreover have "reply (DELETE no_faults ?a [link_L1, link_L2]) =
      NextResponse_json (success link_L1) 200"
    by (simp add: run_defs sample_defs)
  ultimately show ?thesis by simp
qed

end
